theory Spec2Isabelle
  imports Main "HOL-Library.Char_ord" "HOL-Library.List_Lexorder" "HOL-Library.Option_ord"
    "HOL-Library.Sublist" "HOL-Library.Multiset"
begin

section \<open>Database upkeep of the DBCLNP plugin (front/plugins/db\_cleanup/script.py)\<close>

text \<open>
  \<^verbatim>\<open>cleanup_database\<close> opens one SQLite connection, executes a fixed sequence of
  \<^verbatim>\<open>DELETE\<close> statements, commits, runs \<^verbatim>\<open>VACUUM\<close> and closes the connection.
  The embedding has three layers:
  \<^item> the fragment of SQL the statements use (three-valued comparisons, \<^verbatim>\<open>ORDER BY ... DESC\<close>,
    \<^verbatim>\<open>LIMIT\<close>, \<^verbatim>\<open>ROW_NUMBER() OVER (PARTITION BY ...)\<close>, \<^verbatim>\<open>MIN\<close>, \<^verbatim>\<open>date('now', ...)\<close>);
  \<^item> one function per statement of the script, on a record of the tables;
  \<^item> the control flow of the Python function: the sequence of calls on the connection,
    each of which may raise, with the transaction made explicit.
\<close>

subsection \<open>SQL values and three-valued logic\<close>

text \<open>
  A column holds \<^verbatim>\<open>NULL\<close> (\<open>None\<close>) or a value of its declared type: \<^verbatim>\<open>TEXT\<close> is
  \<^typ>\<open>string\<close>, compared bytewise as SQLite's default \<^verbatim>\<open>BINARY\<close> collation does
  (the lexicographic order on \<^typ>\<open>char list\<close>), \<^verbatim>\<open>INTEGER\<close> is \<^typ>\<open>int\<close>.
  A comparison with a \<^verbatim>\<open>NULL\<close> operand is \<^verbatim>\<open>NULL\<close>; a \<^verbatim>\<open>WHERE\<close> clause selects
  a row only when it evaluates to true.
\<close>

type_synonym sql_bool = "bool option"

definition sql_eq :: "'a option \<Rightarrow> 'a option \<Rightarrow> sql_bool" where
  "sql_eq a b = (case a of None \<Rightarrow> None | Some x \<Rightarrow> (case b of None \<Rightarrow> None | Some y \<Rightarrow> Some (x = y)))"

definition sql_le :: "'a::linorder option \<Rightarrow> 'a option \<Rightarrow> sql_bool" where
  "sql_le a b = (case a of None \<Rightarrow> None | Some x \<Rightarrow> (case b of None \<Rightarrow> None | Some y \<Rightarrow> Some (x \<le> y)))"

definition sql_lt :: "'a::linorder option \<Rightarrow> 'a option \<Rightarrow> sql_bool" where
  "sql_lt a b = (case a of None \<Rightarrow> None | Some x \<Rightarrow> (case b of None \<Rightarrow> None | Some y \<Rightarrow> Some (x < y)))"

definition sql_gt :: "'a::linorder option \<Rightarrow> 'a option \<Rightarrow> sql_bool" where
  "sql_gt a b = sql_lt b a"

definition sql_and :: "sql_bool \<Rightarrow> sql_bool \<Rightarrow> sql_bool" where
  "sql_and a b =
     (if a = Some False \<or> b = Some False then Some False
      else if a = None \<or> b = None then None
      else Some True)"

text \<open>\<^verbatim>\<open>DELETE FROM t WHERE c\<close>: the rows for which \<open>c\<close> is true go, all others stay as they are.\<close>

definition sql_delete :: "('r \<Rightarrow> sql_bool) \<Rightarrow> 'r list \<Rightarrow> 'r list" where
  "sql_delete c rows = filter (\<lambda>r. c r \<noteq> Some True) rows"

text \<open>
  \<^verbatim>\<open>x NOT IN (SELECT ...)\<close> for a non-\<^verbatim>\<open>NULL\<close> \<open>x\<close> and a subquery without \<^verbatim>\<open>NULL\<close>s, which is
  the case of the \<^verbatim>\<open>"Index"\<close> columns (integer primary keys, the row ids of their tables).
\<close>

definition sql_not_in :: "int \<Rightarrow> int list \<Rightarrow> sql_bool" where
  "sql_not_in x ys = Some (x \<notin> set ys)"

text \<open>\<^verbatim>\<open>MIN(col)\<close> over the selected rows: \<^verbatim>\<open>NULL\<close> when no row is selected.\<close>

definition sql_min :: "int list \<Rightarrow> int option" where
  "sql_min xs = (if xs = [] then None else Some (Min (set xs)))"

text \<open>
  \<^verbatim>\<open>ORDER BY key DESC\<close>: a table is the list of its rows in the order in which the engine
  scans it. Rows with equal keys stay in scan order (the order among ties is left to the
  engine; the list order stands for whatever it is). \<^verbatim>\<open>NULL\<close> sorts below every value,
  as \<open>None\<close> does in the order on \<^typ>\<open>'a option\<close>.
\<close>

fun insort_desc :: "('r \<Rightarrow> 'k::linorder) \<Rightarrow> 'r \<Rightarrow> 'r list \<Rightarrow> 'r list" where
  "insort_desc key x [] = [x]"
| "insort_desc key x (y # ys) =
     (if key y \<le> key x then x # y # ys else y # insort_desc key x ys)"

definition order_by_desc :: "('r \<Rightarrow> 'k::linorder) \<Rightarrow> 'r list \<Rightarrow> 'r list" where
  "order_by_desc key rows = foldr (insort_desc key) rows []"

text \<open>
  The ranked subquery of the three trimming statements,
  \<^verbatim>\<open>SELECT "Index", ROW_NUMBER() OVER(PARTITION BY part ORDER BY key DESC) AS row_num FROM t\<close>:
  one partition per distinct value of \<open>part\<close>, each numbered from 1 in descending key order.
\<close>

definition ranked_objects ::
  "('r \<Rightarrow> int) \<Rightarrow> ('r \<Rightarrow> 'p) \<Rightarrow> ('r \<Rightarrow> 'k::linorder) \<Rightarrow> 'r list \<Rightarrow> (int \<times> int) list" where
  "ranked_objects idx part key rows =
     concat (map (\<lambda>p. map (\<lambda>(row_num, r). (idx r, int row_num))
                        (enumerate 1 (order_by_desc key (filter (\<lambda>r. part r = p) rows))))
                 (remdups (map part rows)))"

text \<open>
  \<^verbatim>\<open>DELETE FROM t WHERE "Index" NOT IN (SELECT "Index" FROM (...) AS ranked_objects
  WHERE row_num <= K)\<close>.
\<close>

definition trim_query ::
  "('r \<Rightarrow> int) \<Rightarrow> ('r \<Rightarrow> 'p) \<Rightarrow> ('r \<Rightarrow> 'k::linorder) \<Rightarrow> int \<Rightarrow> 'r list \<Rightarrow> 'r list" where
  "trim_query idx part key K rows =
     sql_delete
       (\<lambda>r. sql_not_in (idx r)
              (map fst (filter (\<lambda>(i, row_num). row_num \<le> K) (ranked_objects idx part key rows))))
       rows"

text \<open>
  The two de-duplicating statements,
  \<^verbatim>\<open>DELETE FROM t WHERE rowid > (SELECT MIN(rowid) FROM t p2 WHERE same(t, p2))\<close>.
  The subquery is evaluated for each row of the table as it is before the statement.
\<close>

definition dedup_query :: "('r \<Rightarrow> int) \<Rightarrow> ('r \<Rightarrow> 'r \<Rightarrow> sql_bool) \<Rightarrow> 'r list \<Rightarrow> 'r list" where
  "dedup_query rowid same rows =
     sql_delete
       (\<lambda>r. sql_gt (Some (rowid r))
              (sql_min (map rowid (filter (\<lambda>p2. same r p2 = Some True) rows))))
       rows"

subsection \<open>SQLite's \<^verbatim>\<open>date('now', modifier)\<close>\<close>

text \<open>
  The clock is read in seconds since 1970-01-01 00:00:00 UTC. \<^verbatim>\<open>date\<close> prints the
  proleptic Gregorian calendar date of an instant as \<^verbatim>\<open>YYYY-MM-DD\<close>, and
  \<^verbatim>\<open>datetime\<close> prints \<^verbatim>\<open>YYYY-MM-DD HH:MM:SS\<close>.
\<close>

definition civil_from_days :: "int \<Rightarrow> int \<times> int \<times> int" where
  "civil_from_days z0 =
     (let z = z0 + 719468;
          era = z div 146097;
          doe = z - era * 146097;
          yoe = (doe - doe div 1460 + doe div 36524 - doe div 146096) div 365;
          doy = doe - (365 * yoe + yoe div 4 - yoe div 100);
          mp = (5 * doy + 2) div 153;
          d = doy - (153 * mp + 2) div 5 + 1;
          m = (if mp < 10 then mp + 3 else mp - 9);
          y = yoe + era * 400 + (if m \<le> 2 then 1 else 0)
      in (y, m, d))"

definition digit :: "int \<Rightarrow> char" where
  "digit n = ''0123456789'' ! nat (n mod 10)"

definition two_digits :: "int \<Rightarrow> string" where
  "two_digits n = [digit (n div 10), digit n]"

definition four_digits :: "int \<Rightarrow> string" where
  "four_digits n = [digit (n div 1000), digit (n div 100), digit (n div 10), digit n]"

definition date_text :: "int \<Rightarrow> string" where
  "date_text day =
     (case civil_from_days day of (y, m, d) \<Rightarrow>
        (if y < 0 then ''-'' else '''') @ four_digits (abs y) @ ''-'' @ two_digits m @ ''-'' @ two_digits d)"

definition sqlite_datetime :: "int \<Rightarrow> string" where
  "sqlite_datetime t =
     (let s = t mod 86400
      in date_text (t div 86400) @ '' '' @ two_digits (s div 3600) @ '':''
           @ two_digits (s mod 3600 div 60) @ '':'' @ two_digits (s mod 60))"

text \<open>
  SQLite represents instants from -4713-11-24 12:00:00 to 9999-12-31 23:59:59; a date
  function whose result falls outside is \<^verbatim>\<open>NULL\<close>.
\<close>

definition valid_instant :: "int \<Rightarrow> bool" where
  "valid_instant t \<longleftrightarrow> - 210866760000 \<le> t \<and> t \<le> 253402300799"

text \<open>
  \<^verbatim>\<open>date('now', '-{str(n)} day')\<close> and \<^verbatim>\<open>date('now', '-{str(n)} hour')\<close>, with \<open>unit\<close> the
  seconds of the unit. For a negative \<open>n\<close> the f-string yields the modifier \<^verbatim>\<open>--5 day\<close>,
  which SQLite does not accept as a number: the result is \<^verbatim>\<open>NULL\<close>.
\<close>

definition sqlite_date_now_minus :: "int \<Rightarrow> int \<Rightarrow> int \<Rightarrow> string option" where
  "sqlite_date_now_minus now n unit =
     (if n < 0 then None
      else if valid_instant (now - n * unit) then Some (date_text ((now - n * unit) div 86400))
      else None)"

subsection \<open>Tables\<close>

text \<open>
  The schema is created elsewhere in the application; a row carries the columns that the
  statements of the script read. \<^verbatim>\<open>"Index"\<close> and \<^verbatim>\<open>rowid\<close> are the integer row ids.
\<close>

record online_history_row =
  oh_Index :: int
  Scan_Date :: "string option"

record events_row =
  eve_DateTime :: "string option"

record plugins_history_row =
  ph_Index :: int
  ph_Plugin :: "string option"
  ph_DateTimeChanged :: "string option"

record notifications_row =
  nt_Index :: int
  nt_DateTimeCreated :: "string option"

record appevents_row =
  ae_Index :: int
  ae_DateTimeCreated :: "string option"

record devices_row =
  dev_NewDevice :: "int option"
  dev_FirstConnection :: "string option"

record pholus_scan_row =
  ps_rowid :: int
  ps_Time :: "string option"
  ps_MAC :: "string option"
  ps_Value :: "string option"
  ps_Record_Type :: "string option"

record plugins_objects_row =
  po_rowid :: int
  po_Plugin :: "string option"
  po_Object_PrimaryID :: "string option"
  po_Object_SecondaryID :: "string option"
  po_UserData :: "string option"

text \<open>The database file: the eight tables the script names, and everything else in \<open>other_tables\<close>.\<close>

record 'o database =
  Online_History :: "online_history_row list"
  Events :: "events_row list"
  Plugins_History :: "plugins_history_row list"
  Notifications :: "notifications_row list"
  AppEvents :: "appevents_row list"
  Devices :: "devices_row list"
  Pholus_Scan :: "pholus_scan_row list"
  Plugins_Objects :: "plugins_objects_row list"
  other_tables :: 'o

subsection \<open>The statements of \<^verbatim>\<open>cleanup_database\<close>\<close>

text \<open>
  The arguments of \<^verbatim>\<open>cleanup_database\<close> (without the path) and the two values it reads
  with \<^verbatim>\<open>get_setting_value\<close>. \<^verbatim>\<open>PHOLUS_DAYS_DATA\<close> is an integer or the empty string
  (\<open>None\<close>).
\<close>

record params =
  DAYS_TO_KEEP_EVENTS :: int
  PHOLUS_DAYS_DATA :: "int option"
  HRS_TO_KEEP_NEWDEV :: int
  PLUGINS_KEEP_HIST :: int

record settings =
  DBCLNP_NOTIFI_HIST :: int
  WORKFLOWS_AppEvents_hist :: int

text \<open>
  \<^verbatim>\<open>DELETE from Online_History where "Index" not in (SELECT "Index" from Online_History
  order by Scan_Date desc limit 150)\<close>
\<close>

definition delete_online_history :: "'o database \<Rightarrow> 'o database" where
  "delete_online_history db =
     db\<lparr>Online_History :=
          sql_delete
            (\<lambda>r. sql_not_in (oh_Index r)
                   (map oh_Index (take 150 (order_by_desc Scan_Date (Online_History db)))))
            (Online_History db)\<rparr>"

text \<open>\<^verbatim>\<open>DELETE FROM Events WHERE eve_DateTime <= date('now', '-{str(DAYS_TO_KEEP_EVENTS)} day')\<close>\<close>

definition events_cutoff :: "int \<Rightarrow> params \<Rightarrow> string option" where
  "events_cutoff now p = sqlite_date_now_minus now (DAYS_TO_KEEP_EVENTS p) 86400"

definition delete_events :: "int \<Rightarrow> params \<Rightarrow> 'o database \<Rightarrow> 'o database" where
  "delete_events now p db =
     db\<lparr>Events := sql_delete (\<lambda>r. sql_le (eve_DateTime r) (events_cutoff now p)) (Events db)\<rparr>"

text \<open>The ranked delete on \<^verbatim>\<open>Plugins_History\<close>, \<^verbatim>\<open>PARTITION BY "Plugin" ORDER BY DateTimeChanged DESC\<close>.\<close>

definition trim_plugins_history :: "params \<Rightarrow> 'o database \<Rightarrow> 'o database" where
  "trim_plugins_history p db =
     db\<lparr>Plugins_History :=
          trim_query ph_Index ph_Plugin ph_DateTimeChanged (PLUGINS_KEEP_HIST p) (Plugins_History db)\<rparr>"

text \<open>
  The ranked deletes on \<^verbatim>\<open>Notifications\<close> and \<^verbatim>\<open>AppEvents\<close> partition by
  \<^verbatim>\<open>"Notifications"\<close> and \<^verbatim>\<open>"AppEvents"\<close>: the table's own name, the same value for
  every row.
\<close>

definition trim_notifications :: "settings \<Rightarrow> 'o database \<Rightarrow> 'o database" where
  "trim_notifications st db =
     db\<lparr>Notifications :=
          trim_query nt_Index (\<lambda>r. ''Notifications'') nt_DateTimeCreated (DBCLNP_NOTIFI_HIST st)
            (Notifications db)\<rparr>"

definition trim_appevents :: "settings \<Rightarrow> 'o database \<Rightarrow> 'o database" where
  "trim_appevents st db =
     db\<lparr>AppEvents :=
          trim_query ae_Index (\<lambda>r. ''AppEvents'') ae_DateTimeCreated (WORKFLOWS_AppEvents_hist st)
            (AppEvents db)\<rparr>"

text \<open>
  \<^verbatim>\<open>DELETE FROM Devices WHERE dev_NewDevice = 1 AND dev_FirstConnection <
  date('now', '-{str(HRS_TO_KEEP_NEWDEV)} hour')\<close>
\<close>

definition new_devices_cutoff :: "int \<Rightarrow> params \<Rightarrow> string option" where
  "new_devices_cutoff now p = sqlite_date_now_minus now (HRS_TO_KEEP_NEWDEV p) 3600"

definition new_devices_where :: "int \<Rightarrow> params \<Rightarrow> devices_row \<Rightarrow> sql_bool" where
  "new_devices_where now p r =
     sql_and (sql_eq (dev_NewDevice r) (Some 1))
             (sql_lt (dev_FirstConnection r) (new_devices_cutoff now p))"

definition delete_new_devices :: "int \<Rightarrow> params \<Rightarrow> 'o database \<Rightarrow> 'o database" where
  "delete_new_devices now p db = db\<lparr>Devices := sql_delete (new_devices_where now p) (Devices db)\<rparr>"

text \<open>\<^verbatim>\<open>DELETE FROM Pholus_Scan WHERE Time <= date('now', '-{str(PHOLUS_DAYS_DATA)} day')\<close>\<close>

definition pholus_cutoff :: "int \<Rightarrow> params \<Rightarrow> string option" where
  "pholus_cutoff now p =
     (case PHOLUS_DAYS_DATA p of None \<Rightarrow> None | Some d \<Rightarrow> sqlite_date_now_minus now d 86400)"

definition delete_pholus_scan :: "int \<Rightarrow> params \<Rightarrow> 'o database \<Rightarrow> 'o database" where
  "delete_pholus_scan now p db =
     db\<lparr>Pholus_Scan := sql_delete (\<lambda>r. sql_le (ps_Time r) (pholus_cutoff now p)) (Pholus_Scan db)\<rparr>"

text \<open>
  \<^verbatim>\<open>DELETE FROM Pholus_Scan WHERE rowid > (SELECT MIN(rowid) FROM Pholus_Scan p2 WHERE
  Pholus_Scan.MAC = p2.MAC AND Pholus_Scan.Value = p2.Value AND
  Pholus_Scan.Record_Type = p2.Record_Type)\<close>
\<close>

definition pholus_same :: "pholus_scan_row \<Rightarrow> pholus_scan_row \<Rightarrow> sql_bool" where
  "pholus_same r p2 =
     sql_and (sql_and (sql_eq (ps_MAC r) (ps_MAC p2)) (sql_eq (ps_Value r) (ps_Value p2)))
             (sql_eq (ps_Record_Type r) (ps_Record_Type p2))"

definition dedup_pholus_scan :: "'o database \<Rightarrow> 'o database" where
  "dedup_pholus_scan db =
     db\<lparr>Pholus_Scan := dedup_query ps_rowid pholus_same (Pholus_Scan db)\<rparr>"

text \<open>
  \<^verbatim>\<open>DELETE FROM Plugins_Objects WHERE rowid > (SELECT MIN(rowid) FROM Plugins_Objects p2
  WHERE Plugins_Objects.Plugin = p2.Plugin AND Plugins_Objects.Object_PrimaryID =
  p2.Object_PrimaryID AND Plugins_Objects.Object_SecondaryID = p2.Object_SecondaryID AND
  Plugins_Objects.UserData = p2.UserData)\<close>
\<close>

definition objects_same :: "plugins_objects_row \<Rightarrow> plugins_objects_row \<Rightarrow> sql_bool" where
  "objects_same r p2 =
     sql_and (sql_and (sql_and (sql_eq (po_Plugin r) (po_Plugin p2))
                               (sql_eq (po_Object_PrimaryID r) (po_Object_PrimaryID p2)))
                      (sql_eq (po_Object_SecondaryID r) (po_Object_SecondaryID p2)))
             (sql_eq (po_UserData r) (po_UserData p2))"

definition dedup_plugins_objects :: "'o database \<Rightarrow> 'o database" where
  "dedup_plugins_objects db =
     db\<lparr>Plugins_Objects := dedup_query po_rowid objects_same (Plugins_Objects db)\<rparr>"

text \<open>The key columns of the two de-duplicating statements.\<close>

definition pholus_key :: "pholus_scan_row \<Rightarrow> string option \<times> string option \<times> string option" where
  "pholus_key r = (ps_MAC r, ps_Value r, ps_Record_Type r)"

definition objects_key ::
  "plugins_objects_row \<Rightarrow> string option \<times> string option \<times> string option \<times> string option" where
  "objects_key r = (po_Plugin r, po_Object_PrimaryID r, po_Object_SecondaryID r, po_UserData r)"

subsection \<open>The run: calls on the connection, failures and the transaction\<close>

datatype statement =
    DeleteOnlineHistory | DeleteEvents | TrimPluginsHistory | TrimNotifications | TrimAppEvents
  | DeleteNewDevices | DeletePholusScan | DedupPholusScan | DedupPluginsObjects | Vacuum

datatype action = Connect | Execute statement | Commit | Close

text \<open>
  \<open>clock s\<close> is the reading of the engine's clock when statement \<open>s\<close> is executed.
  \<^verbatim>\<open>VACUUM\<close> rewrites the file and leaves every row as it is.
\<close>

fun exec_statement ::
  "(statement \<Rightarrow> int) \<Rightarrow> settings \<Rightarrow> params \<Rightarrow> statement \<Rightarrow> 'o database \<Rightarrow> 'o database" where
  "exec_statement clock st p DeleteOnlineHistory db = delete_online_history db"
| "exec_statement clock st p DeleteEvents db = delete_events (clock DeleteEvents) p db"
| "exec_statement clock st p TrimPluginsHistory db = trim_plugins_history p db"
| "exec_statement clock st p TrimNotifications db = trim_notifications st db"
| "exec_statement clock st p TrimAppEvents db = trim_appevents st db"
| "exec_statement clock st p DeleteNewDevices db = delete_new_devices (clock DeleteNewDevices) p db"
| "exec_statement clock st p DeletePholusScan db = delete_pholus_scan (clock DeletePholusScan) p db"
| "exec_statement clock st p DedupPholusScan db = dedup_pholus_scan db"
| "exec_statement clock st p DedupPluginsObjects db = dedup_plugins_objects db"
| "exec_statement clock st p Vacuum db = db"

text \<open>
  The world of a run: the committed content of the file, the content as the open
  transaction sees it (if one is open), whether the connection is open, and the calls
  completed so far. Python's \<^verbatim>\<open>sqlite3\<close> opens a transaction before the first
  \<^verbatim>\<open>DELETE\<close>; \<^verbatim>\<open>commit\<close> writes it; closing discards what is not committed.
\<close>

record 'o world =
  disk :: "'o database"
  pending :: "'o database option"
  connected :: bool
  trace :: "action list"

definition initial :: "'o database \<Rightarrow> 'o world" where
  "initial db = \<lparr>disk = db, pending = None, connected = False, trace = []\<rparr>"

definition current :: "'o world \<Rightarrow> 'o database" where
  "current w = (case pending w of None \<Rightarrow> disk w | Some d \<Rightarrow> d)"

fun effect ::
  "(statement \<Rightarrow> int) \<Rightarrow> settings \<Rightarrow> params \<Rightarrow> action \<Rightarrow> 'o world \<Rightarrow> 'o world" where
  "effect clock st p Connect w = w\<lparr>connected := True\<rparr>"
| "effect clock st p (Execute Vacuum) w = w"
| "effect clock st p (Execute s) w = w\<lparr>pending := Some (exec_statement clock st p s (current w))\<rparr>"
| "effect clock st p Commit w = w\<lparr>disk := current w, pending := None\<rparr>"
| "effect clock st p Close w = w\<lparr>pending := None, connected := False\<rparr>"

definition perform ::
  "(statement \<Rightarrow> int) \<Rightarrow> settings \<Rightarrow> params \<Rightarrow> action \<Rightarrow> 'o world \<Rightarrow> 'o world" where
  "perform clock st p a w = (effect clock st p a w)\<lparr>trace := trace w @ [a]\<rparr>"

text \<open>
  The calls of \<^verbatim>\<open>cleanup_database\<close> in program order: \<^verbatim>\<open>sqlite3.connect\<close>, one
  \<^verbatim>\<open>cursor.execute\<close> per \<^verbatim>\<open>DELETE\<close> statement (two of them under an \<^verbatim>\<open>if\<close>),
  \<^verbatim>\<open>conn.commit\<close>, \<^verbatim>\<open>cursor.execute("VACUUM;")\<close>, \<^verbatim>\<open>conn.close\<close>. The function has no
  \<^verbatim>\<open>try\<close>: a call that raises ends the run there, and the exception reaches the caller.
  \<open>fails a\<close> says that call \<open>a\<close> raises; the result is the call that raised (if any) and
  the world the run leaves behind.
\<close>

definition delete_statements :: "params \<Rightarrow> statement list" where
  "delete_statements p =
     [DeleteOnlineHistory,
      DeleteEvents,
      TrimPluginsHistory,
      TrimNotifications,
      TrimAppEvents]
     @ (if HRS_TO_KEEP_NEWDEV p \<noteq> 0 then [DeleteNewDevices] else [])
     @ (if PHOLUS_DAYS_DATA p \<noteq> None \<and> PHOLUS_DAYS_DATA p \<noteq> Some 0
        then [DeletePholusScan] else [])
     @ [DedupPholusScan,
        DedupPluginsObjects]"

definition script :: "params \<Rightarrow> action list" where
  "script p =
     [Connect] @ map Execute (delete_statements p) @ [Commit, Execute Vacuum, Close]"

fun run ::
  "(action \<Rightarrow> bool) \<Rightarrow> (action \<Rightarrow> 'w \<Rightarrow> 'w) \<Rightarrow> action list \<Rightarrow> 'w \<Rightarrow> action option \<times> 'w" where
  "run fails step [] w = (None, w)"
| "run fails step (a # as) w = (if fails a then (Some a, w) else run fails step as (step a w))"

definition cleanup_database ::
  "(action \<Rightarrow> bool) \<Rightarrow> (statement \<Rightarrow> int) \<Rightarrow> settings \<Rightarrow> params \<Rightarrow> 'o database
     \<Rightarrow> action option \<times> 'o world" where
  "cleanup_database fails clock st p db = run fails (perform clock st p) (script p) (initial db)"

text \<open>A run in which no call raises, a run in which exactly one call does, and a clock that stands still.\<close>

definition no_failure :: "action \<Rightarrow> bool" where
  "no_failure a = False"

definition failure_at :: "action \<Rightarrow> action \<Rightarrow> bool" where
  "failure_at b a = (a = b)"

definition clock_at :: "int \<Rightarrow> statement \<Rightarrow> int" where
  "clock_at t s = t"

subsection \<open>Scenarios\<close>

text \<open>
  A seeded database: five \<^verbatim>\<open>Plugins_History\<close> rows of plugin \<^verbatim>\<open>X\<close> with increasing
  \<^verbatim>\<open>DateTimeChanged\<close> and two of plugin \<^verbatim>\<open>Y\<close>; three \<^verbatim>\<open>Pholus_Scan\<close> rows with the same
  (MAC, Value, Record\_Type) and the row ids 5, 7, 9; a device flagged new with an old
  first connection. The run is at 2024-01-11 12:00:00 UTC.
\<close>

definition seed_db :: "(string \<times> string list) list database" where
  "seed_db =
    \<lparr>Online_History =
       [\<lparr>oh_Index = 1, Scan_Date = Some ''2024-01-11 11:50:00''\<rparr>,
        \<lparr>oh_Index = 2, Scan_Date = Some ''2024-01-11 11:55:00''\<rparr>],
     Events =
       [\<lparr>eve_DateTime = Some ''2023-12-31 23:00:00''\<rparr>,
        \<lparr>eve_DateTime = Some ''2024-01-05 08:00:00''\<rparr>],
     Plugins_History =
       [\<lparr>ph_Index = 1, ph_Plugin = Some ''X'', ph_DateTimeChanged = Some ''2024-01-01 00:00:00''\<rparr>,
        \<lparr>ph_Index = 2, ph_Plugin = Some ''X'', ph_DateTimeChanged = Some ''2024-01-02 00:00:00''\<rparr>,
        \<lparr>ph_Index = 3, ph_Plugin = Some ''Y'', ph_DateTimeChanged = Some ''2023-06-01 00:00:00''\<rparr>,
        \<lparr>ph_Index = 4, ph_Plugin = Some ''X'', ph_DateTimeChanged = Some ''2024-01-03 00:00:00''\<rparr>,
        \<lparr>ph_Index = 5, ph_Plugin = Some ''X'', ph_DateTimeChanged = Some ''2024-01-04 00:00:00''\<rparr>,
        \<lparr>ph_Index = 6, ph_Plugin = Some ''Y'', ph_DateTimeChanged = Some ''2023-06-02 00:00:00''\<rparr>,
        \<lparr>ph_Index = 7, ph_Plugin = Some ''X'', ph_DateTimeChanged = Some ''2024-01-05 00:00:00''\<rparr>],
     Notifications =
       [\<lparr>nt_Index = 1, nt_DateTimeCreated = Some ''2024-01-08 09:00:00''\<rparr>,
        \<lparr>nt_Index = 2, nt_DateTimeCreated = Some ''2024-01-10 09:00:00''\<rparr>,
        \<lparr>nt_Index = 3, nt_DateTimeCreated = Some ''2024-01-09 09:00:00''\<rparr>],
     AppEvents =
       [\<lparr>ae_Index = 1, ae_DateTimeCreated = Some ''2024-01-10 10:00:00''\<rparr>,
        \<lparr>ae_Index = 2, ae_DateTimeCreated = Some ''2024-01-10 10:00:01''\<rparr>,
        \<lparr>ae_Index = 3, ae_DateTimeCreated = Some ''2024-01-10 10:00:02''\<rparr>],
     Devices =
       [\<lparr>dev_NewDevice = Some 1, dev_FirstConnection = Some ''2020-02-29 07:30:00''\<rparr>,
        \<lparr>dev_NewDevice = Some 0, dev_FirstConnection = Some ''2019-01-01 00:00:00''\<rparr>],
     Pholus_Scan =
       [\<lparr>ps_rowid = 5, ps_Time = Some ''2024-01-09 10:00:00'', ps_MAC = Some ''AA:BB'',
          ps_Value = Some ''v1'', ps_Record_Type = Some ''A''\<rparr>,
        \<lparr>ps_rowid = 7, ps_Time = Some ''2024-01-09 11:00:00'', ps_MAC = Some ''AA:BB'',
          ps_Value = Some ''v1'', ps_Record_Type = Some ''A''\<rparr>,
        \<lparr>ps_rowid = 8, ps_Time = Some ''2024-01-09 11:30:00'', ps_MAC = Some ''AA:BB'',
          ps_Value = Some ''v2'', ps_Record_Type = Some ''A''\<rparr>,
        \<lparr>ps_rowid = 9, ps_Time = Some ''2024-01-09 12:00:00'', ps_MAC = Some ''AA:BB'',
          ps_Value = Some ''v1'', ps_Record_Type = Some ''A''\<rparr>],
     Plugins_Objects =
       [\<lparr>po_rowid = 21, po_Plugin = Some ''X'', po_Object_PrimaryID = Some ''AA:BB'',
          po_Object_SecondaryID = Some ''192.168.1.2'', po_UserData = Some ''u''\<rparr>,
        \<lparr>po_rowid = 20, po_Plugin = Some ''X'', po_Object_PrimaryID = Some ''AA:BB'',
          po_Object_SecondaryID = Some ''192.168.1.2'', po_UserData = Some ''u''\<rparr>,
        \<lparr>po_rowid = 22, po_Plugin = Some ''Y'', po_Object_PrimaryID = Some ''AA:BB'',
          po_Object_SecondaryID = Some ''192.168.1.2'', po_UserData = Some ''u''\<rparr>],
     other_tables = [(''Settings'', [''TIMEZONE=UTC'']), (''Parameters'', [])]\<rparr>"

definition seed_params :: params where
  "seed_params =
     \<lparr>DAYS_TO_KEEP_EVENTS = 10, PHOLUS_DAYS_DATA = Some 30, HRS_TO_KEEP_NEWDEV = 0,
      PLUGINS_KEEP_HIST = 3\<rparr>"

definition seed_settings :: settings where
  "seed_settings = \<lparr>DBCLNP_NOTIFI_HIST = 2, WORKFLOWS_AppEvents_hist = 2\<rparr>"

definition seed_clock :: "statement \<Rightarrow> int" where
  "seed_clock = clock_at 1704974400"

definition seed_run :: "action option \<times> (string \<times> string list) list world" where
  "seed_run = cleanup_database no_failure seed_clock seed_settings seed_params seed_db"

text \<open>
  A \<^verbatim>\<open>Pholus_Scan\<close> table in which the row with the smallest row id of its group is older
  than \<^verbatim>\<open>PHOLUS_DAYS_DATA\<close> days, and in which two rows agree on (MAC, Value,
  Record\_Type) with a \<^verbatim>\<open>NULL\<close> MAC.
\<close>

definition aged_pholus_db :: "unit database" where
  "aged_pholus_db =
    \<lparr>Online_History = [], Events = [], Plugins_History = [], Notifications = [], AppEvents = [],
     Devices = [],
     Pholus_Scan =
       [\<lparr>ps_rowid = 5, ps_Time = Some ''2023-01-01 00:00:00'', ps_MAC = Some ''AA:BB'',
          ps_Value = Some ''v1'', ps_Record_Type = Some ''A''\<rparr>,
        \<lparr>ps_rowid = 7, ps_Time = Some ''2024-01-10 09:00:00'', ps_MAC = Some ''AA:BB'',
          ps_Value = Some ''v1'', ps_Record_Type = Some ''A''\<rparr>,
        \<lparr>ps_rowid = 9, ps_Time = Some ''2024-01-10 09:30:00'', ps_MAC = Some ''AA:BB'',
          ps_Value = Some ''v1'', ps_Record_Type = Some ''A''\<rparr>,
        \<lparr>ps_rowid = 11, ps_Time = Some ''2024-01-10 10:00:00'', ps_MAC = None,
          ps_Value = Some ''v1'', ps_Record_Type = Some ''A''\<rparr>,
        \<lparr>ps_rowid = 12, ps_Time = Some ''2024-01-10 10:00:00'', ps_MAC = None,
          ps_Value = Some ''v1'', ps_Record_Type = Some ''A''\<rparr>],
     Plugins_Objects = [], other_tables = ()\<rparr>"

definition aged_pholus_run :: "action option \<times> unit world" where
  "aged_pholus_run = cleanup_database no_failure seed_clock seed_settings seed_params aged_pholus_db"

text \<open>
  An \<^verbatim>\<open>Events\<close> table for a run at 2024-01-11 12:00:00 UTC with \<^verbatim>\<open>DAYS_TO_KEEP_EVENTS\<close> = 10,
  so that now minus 10 days is 2024-01-01 12:00:00: one event two hours before that
  instant, one stored as the date alone, and one of the day before.
\<close>

definition stale_event_db :: "unit database" where
  "stale_event_db =
    \<lparr>Online_History = [],
     Events =
       [\<lparr>eve_DateTime = Some ''2024-01-01 10:00:00''\<rparr>,
        \<lparr>eve_DateTime = Some ''2024-01-01''\<rparr>,
        \<lparr>eve_DateTime = Some ''2023-12-31 23:59:59''\<rparr>],
     Plugins_History = [], Notifications = [], AppEvents = [], Devices = [], Pholus_Scan = [],
     Plugins_Objects = [], other_tables = ()\<rparr>"

definition stale_event_run :: "action option \<times> unit world" where
  "stale_event_run = cleanup_database no_failure seed_clock seed_settings seed_params stale_event_db"

text \<open>
  A device flagged new that first connected at 2024-01-11 01:00:00, eleven hours before the
  run, with \<^verbatim>\<open>HRS_TO_KEEP_NEWDEV\<close> = 2.
\<close>

definition recent_device_db :: "unit database" where
  "recent_device_db =
    \<lparr>Online_History = [], Events = [], Plugins_History = [], Notifications = [], AppEvents = [],
     Devices = [\<lparr>dev_NewDevice = Some 1, dev_FirstConnection = Some ''2024-01-11 01:00:00''\<rparr>],
     Pholus_Scan = [], Plugins_Objects = [], other_tables = ()\<rparr>"

definition two_hours_params :: params where
  "two_hours_params =
     \<lparr>DAYS_TO_KEEP_EVENTS = 10, PHOLUS_DAYS_DATA = Some 30, HRS_TO_KEEP_NEWDEV = 2,
      PLUGINS_KEEP_HIST = 3\<rparr>"

definition recent_device_run :: "action option \<times> unit world" where
  "recent_device_run =
     cleanup_database no_failure seed_clock seed_settings two_hours_params recent_device_db"

text \<open>Runs on the seeded database in which one call raises.\<close>

definition failed_delete_run :: "action option \<times> (string \<times> string list) list world" where
  "failed_delete_run =
     cleanup_database (failure_at (Execute DeleteEvents)) seed_clock seed_settings seed_params seed_db"

definition failed_commit_run :: "action option \<times> (string \<times> string list) list world" where
  "failed_commit_run =
     cleanup_database (failure_at Commit) seed_clock seed_settings seed_params seed_db"

definition failed_vacuum_run :: "action option \<times> (string \<times> string list) list world" where
  "failed_vacuum_run =
     cleanup_database (failure_at (Execute Vacuum)) seed_clock seed_settings seed_params seed_db"

text \<open>
  Two runs in succession on \<open>stale_event_db\<close>, the first at 2024-01-11 23:59:59 and the
  second two seconds later, at 2024-01-12 00:00:01, on the file the first has left.
\<close>

definition before_midnight_run :: "action option \<times> unit world" where
  "before_midnight_run =
     cleanup_database no_failure (clock_at 1705017599) seed_settings seed_params stale_event_db"

definition after_midnight_run :: "action option \<times> unit world" where
  "after_midnight_run =
     cleanup_database no_failure (clock_at 1705017601) seed_settings seed_params
       (disk (snd before_midnight_run))"

text \<open>The seeded run, run again at the same clock reading on the file it has left.\<close>

definition seed_second_run :: "action option \<times> (string \<times> string list) list world" where
  "seed_second_run =
     cleanup_database no_failure seed_clock seed_settings seed_params (disk (snd seed_run))"

text \<open>
  An \<^verbatim>\<open>Online_History\<close> table of 152 scans, five minutes apart from 2024-01-01 00:05:00.
\<close>

definition long_history_db :: "unit database" where
  "long_history_db =
    \<lparr>Online_History =
       map (\<lambda>i. \<lparr>oh_Index = i, Scan_Date = Some (sqlite_datetime (1704067200 + i * 300))\<rparr>) [1..152],
     Events = [], Plugins_History = [], Notifications = [], AppEvents = [], Devices = [],
     Pholus_Scan = [], Plugins_Objects = [], other_tables = ()\<rparr>"

definition long_history_run :: "action option \<times> unit world" where
  "long_history_run = cleanup_database no_failure seed_clock seed_settings seed_params long_history_db"

section \<open>Facts about the SQL fragment\<close>

lemma sql_delete_subseq: "subseq (sql_delete c rows) rows"
  by (simp add: sql_delete_def)

lemma sql_delete_idem: "sql_delete c (sql_delete c rows) = sql_delete c rows"
  by (simp add: sql_delete_def)

lemma mset_insort_desc: "mset (insort_desc key x xs) = add_mset x (mset xs)"
  by (induction xs) auto

lemma mset_order_by_desc: "mset (order_by_desc key xs) = mset xs"
  by (induction xs) (auto simp: order_by_desc_def mset_insort_desc)

lemma set_order_by_desc: "set (order_by_desc key xs) = set xs"
  by (metis mset_order_by_desc set_mset_mset)

lemma length_order_by_desc: "length (order_by_desc key xs) = length xs"
  by (metis mset_order_by_desc size_mset)

lemma distinct_order_by_desc: "distinct (order_by_desc key xs) = distinct xs"
  by (metis mset_order_by_desc distinct_count_atmost_1 set_mset_mset count_mset_0_iff)

lemma set_insort_desc: "set (insort_desc key x xs) = insert x (set xs)"
  by (metis mset_insort_desc set_mset_mset set_mset_add_mset_insert)

lemma sorted_insort_desc:
  "sorted_wrt (\<lambda>a b. key b \<le> key a) xs \<Longrightarrow> sorted_wrt (\<lambda>a b. key b \<le> key a) (insort_desc key x xs)"
  by (induction xs) (auto simp: set_insort_desc)

lemma sorted_order_by_desc: "sorted_wrt (\<lambda>a b. key b \<le> key a) (order_by_desc key xs)"
  by (induction xs) (auto simp: order_by_desc_def sorted_insort_desc)

lemma insort_desc_front: "\<forall>z\<in>set zs. key z \<le> key x \<Longrightarrow> insort_desc key x zs = x # zs"
  by (cases zs) auto

lemma filter_insort_desc:
  "sorted_wrt (\<lambda>a b. key b \<le> key a) xs \<Longrightarrow>
   filter P (insort_desc key x xs) = (if P x then insort_desc key x (filter P xs) else filter P xs)"
proof (induction xs)
  case Nil
  then show ?case by simp
next
  case (Cons y ys)
  show ?case
  proof (cases "key y \<le> key x")
    case True
    have "\<forall>z\<in>set (filter P ys). key z \<le> key x"
      using Cons.prems True by auto
    then have "insort_desc key x (filter P ys) = x # filter P ys"
      by (rule insort_desc_front)
    with True show ?thesis by simp
  next
    case False
    with Cons show ?thesis by simp
  qed
qed

lemma filter_order_by_desc: "filter P (order_by_desc key xs) = order_by_desc key (filter P xs)"
proof (induction xs)
  case Nil
  then show ?case by (simp add: order_by_desc_def)
next
  case (Cons x xs)
  have "filter P (order_by_desc key (x # xs)) = filter P (insort_desc key x (order_by_desc key xs))"
    by (simp add: order_by_desc_def)
  also have "\<dots> = (if P x then insort_desc key x (filter P (order_by_desc key xs))
                     else filter P (order_by_desc key xs))"
    by (rule filter_insort_desc) (rule sorted_order_by_desc)
  also have "\<dots> = order_by_desc key (filter P (x # xs))"
    using Cons.IH by (simp add: order_by_desc_def)
  finally show ?case .
qed

lemma filter_mem_take: "distinct S \<Longrightarrow> filter (\<lambda>x. x \<in> set (take n S)) S = take n S"
proof -
  assume d: "distinct S"
  have "distinct (take n S @ drop n S)" using d by simp
  then have disj: "set (take n S) \<inter> set (drop n S) = {}" by (simp only: distinct_append)
  have a: "filter (\<lambda>x. x \<in> set (take n S)) (take n S) = take n S" by simp
  have b: "filter (\<lambda>x. x \<in> set (take n S)) (drop n S) = []"
    using disj by (auto simp: filter_empty_conv)
  have "filter (\<lambda>x. x \<in> set (take n S)) (take n S @ drop n S) = take n S"
    unfolding filter_append a b by simp
  then show ?thesis by simp
qed

lemma take_dominates:
  assumes "sorted_wrt (\<lambda>a b. key b \<le> key a) S" "r \<in> set (take n S)" "d \<in> set S" "d \<notin> set (take n S)"
  shows "key d \<le> key r"
proof -
  have "sorted_wrt (\<lambda>a b. key b \<le> key a) (take n S @ drop n S)" using assms(1) by simp
  moreover have "d \<in> set (drop n S)"
    using assms(3,4) by (metis Un_iff append_take_drop_id set_append)
  ultimately show ?thesis using assms(2) unfolding sorted_wrt_append by blast
qed

lemma kept_from:
  "map fst (filter (\<lambda>(i, row_num). row_num \<le> K) (map (\<lambda>(row_num, r). (idx r, int row_num)) (enumerate a xs)))
   = map idx (take (nat (K - int a + 1)) xs)"
proof (induction xs arbitrary: a)
  case Nil
  then show ?case by simp
next
  case (Cons x xs)
  show ?case
  proof (cases "int a \<le> K")
    case True
    then have "nat (K - int a + 1) = Suc (nat (K - int (Suc a) + 1))" by simp
    with True Cons.IH[of "Suc a"] show ?thesis by simp
  next
    case False
    then have "nat (K - int a + 1) = 0" "nat (K - int (Suc a) + 1) = 0" by simp_all
    with False Cons.IH[of "Suc a"] show ?thesis by simp
  qed
qed

lemma kept_take:
  "map fst (filter (\<lambda>(i, row_num). row_num \<le> K) (map (\<lambda>(row_num, r). (idx r, int row_num)) (enumerate 1 xs)))
   = map idx (take (nat K) xs)"
  using kept_from[of K idx 1 xs] by simp

lemma kept_take_Suc:
  "map fst (filter (\<lambda>(i, row_num). row_num \<le> K) (map (\<lambda>(row_num, r). (idx r, int row_num)) (enumerate (Suc 0) xs)))
   = map idx (take (nat K) xs)"
  using kept_take[of K idx xs] by simp

lemma set_kept:
  "set (map fst (filter (\<lambda>(i, row_num). row_num \<le> K) (ranked_objects idx part key rows)))
   = (\<Union>p\<in>part ` set rows. idx ` set (take (nat K) (order_by_desc key (filter (\<lambda>r. part r = p) rows))))"
proof -
  have "map fst (filter (\<lambda>(i, row_num). row_num \<le> K) (ranked_objects idx part key rows))
        = concat (map (\<lambda>p. map idx (take (nat K) (order_by_desc key (filter (\<lambda>r. part r = p) rows))))
                      (remdups (map part rows)))"
    unfolding ranked_objects_def
    by (simp add: filter_concat map_concat comp_def kept_take_Suc)
  then show ?thesis by auto
qed

lemma trim_query_mem:
  assumes "distinct (map idx rows)"
  shows "trim_query idx part key K rows
         = filter (\<lambda>r. r \<in> set (take (nat K) (order_by_desc key (filter (\<lambda>x. part x = part r) rows)))) rows"
proof -
  have inj: "inj_on idx (set rows)" using assms by (simp add: distinct_map)
  have "\<And>r. r \<in> set rows \<Longrightarrow>
          (idx r \<in> set (map fst (filter (\<lambda>(i, row_num). row_num \<le> K) (ranked_objects idx part key rows))))
          = (r \<in> set (take (nat K) (order_by_desc key (filter (\<lambda>x. part x = part r) rows))))"
  proof -
    fix r assume r: "r \<in> set rows"
    show "(idx r \<in> set (map fst (filter (\<lambda>(i, row_num). row_num \<le> K) (ranked_objects idx part key rows))))
          = (r \<in> set (take (nat K) (order_by_desc key (filter (\<lambda>x. part x = part r) rows))))"
    proof
      assume "idx r \<in> set (map fst (filter (\<lambda>(i, row_num). row_num \<le> K) (ranked_objects idx part key rows)))"
      then obtain p r' where p: "p \<in> part ` set rows"
        and r': "r' \<in> set (take (nat K) (order_by_desc key (filter (\<lambda>x. part x = p) rows)))"
        and eq: "idx r = idx r'"
        unfolding set_kept by blast
      from r' have "r' \<in> set (order_by_desc key (filter (\<lambda>x. part x = p) rows))"
        by (rule in_set_takeD)
      then have m: "r' \<in> set rows" "part r' = p" by (simp_all add: set_order_by_desc)
      with inj r eq have "r = r'" by (auto dest: inj_onD)
      with r' m show "r \<in> set (take (nat K) (order_by_desc key (filter (\<lambda>x. part x = part r) rows)))"
        by simp
    next
      assume "r \<in> set (take (nat K) (order_by_desc key (filter (\<lambda>x. part x = part r) rows)))"
      with r show "idx r \<in> set (map fst (filter (\<lambda>(i, row_num). row_num \<le> K) (ranked_objects idx part key rows)))"
        unfolding set_kept by blast
    qed
  qed
  then have "filter (\<lambda>r. idx r \<in> set (map fst (filter (\<lambda>(i, row_num). row_num \<le> K) (ranked_objects idx part key rows)))) rows
        = filter (\<lambda>r. r \<in> set (take (nat K) (order_by_desc key (filter (\<lambda>x. part x = part r) rows)))) rows"
    by (rule filter_cong[OF refl])
  moreover have "trim_query idx part key K rows
        = filter (\<lambda>r. idx r \<in> set (map fst (filter (\<lambda>(i, row_num). row_num \<le> K) (ranked_objects idx part key rows)))) rows"
    unfolding trim_query_def sql_delete_def sql_not_in_def by simp
  ultimately show ?thesis by (simp only:)
qed

lemma trim_query_partition:
  assumes "distinct (map idx rows)"
  shows "filter (\<lambda>r. part r = p) (trim_query idx part key K rows)
         = filter (\<lambda>r. r \<in> set (take (nat K) (order_by_desc key (filter (\<lambda>x. part x = p) rows))))
             (filter (\<lambda>x. part x = p) rows)"
  unfolding trim_query_mem[OF assms] filter_filter
  by (rule filter_cong[OF refl]) auto

lemma trim_query_independent:
  assumes "distinct (map idx rows)"
  shows "filter (\<lambda>r. part r = p) (trim_query idx part key K rows)
         = trim_query idx part key K (filter (\<lambda>r. part r = p) rows)"
proof -
  have d: "distinct (map idx (filter (\<lambda>r. part r = p) rows))"
    using assms by (rule distinct_map_filter)
  have "trim_query idx part key K (filter (\<lambda>r. part r = p) rows)
        = filter (\<lambda>r. r \<in> set (take (nat K) (order_by_desc key
              (filter (\<lambda>x. part x = part r) (filter (\<lambda>r. part r = p) rows)))))
            (filter (\<lambda>r. part r = p) rows)"
    by (rule trim_query_mem[OF d])
  also have "\<dots> = filter (\<lambda>r. r \<in> set (take (nat K) (order_by_desc key (filter (\<lambda>x. part x = p) rows))))
            (filter (\<lambda>r. part r = p) rows)"
  proof (rule filter_cong[OF refl])
    fix r assume "r \<in> set (filter (\<lambda>r. part r = p) rows)"
    then have "part r = p" by simp
    then have "filter (\<lambda>x. part x = part r) (filter (\<lambda>r. part r = p) rows) = filter (\<lambda>x. part x = p) rows"
      by simp
    then show "(r \<in> set (take (nat K) (order_by_desc key
              (filter (\<lambda>x. part x = part r) (filter (\<lambda>r. part r = p) rows)))))
            = (r \<in> set (take (nat K) (order_by_desc key (filter (\<lambda>x. part x = p) rows))))"
      by simp
  qed
  finally show ?thesis using trim_query_partition[OF assms, of part p key K] by simp
qed

lemma set_filter_mem_top:
  "set (filter (\<lambda>r. r \<in> set (take n (order_by_desc key xs))) xs) = set (take n (order_by_desc key xs))"
  using set_order_by_desc[of key xs] by (auto dest: in_set_takeD)

lemma length_filter_mem_top:
  assumes "distinct xs"
  shows "length (filter (\<lambda>r. r \<in> set (take n (order_by_desc key xs))) xs) = min n (length xs)"
proof -
  have "distinct (filter (\<lambda>r. r \<in> set (take n (order_by_desc key xs))) xs)"
    using assms by simp
  then have "length (filter (\<lambda>r. r \<in> set (take n (order_by_desc key xs))) xs)
             = card (set (filter (\<lambda>r. r \<in> set (take n (order_by_desc key xs))) xs))"
    by (rule distinct_card[symmetric])
  also have "\<dots> = card (set (take n (order_by_desc key xs)))"
    by (simp only: set_filter_mem_top)
  also have "\<dots> = length (take n (order_by_desc key xs))"
    using assms by (intro distinct_card distinct_take) (simp add: distinct_order_by_desc)
  also have "\<dots> = min n (length xs)"
    by (simp add: length_order_by_desc min.commute)
  finally show ?thesis .
qed

text \<open>The table as a whole is one partition when the partition expression is constant.\<close>

lemma trim_query_const:
  assumes "distinct (map idx rows)"
  shows "trim_query idx (\<lambda>r. c) key K rows
         = filter (\<lambda>r. r \<in> set (take (nat K) (order_by_desc key rows))) rows"
  using trim_query_mem[OF assms, of "\<lambda>r. c" key K] by simp

lemma trim_query_idem:
  assumes "distinct (map idx rows)"
  shows "trim_query idx part key K (trim_query idx part key K rows) = trim_query idx part key K rows"
proof -
  let ?T = "trim_query idx part key K rows"
  let ?S = "\<lambda>p. order_by_desc key (filter (\<lambda>x. part x = p) rows)"
  have dT: "distinct (map idx ?T)"
    unfolding trim_query_def sql_delete_def using assms by (rule distinct_map_filter)
  have drows: "distinct rows" using assms by (simp add: distinct_map)
  have part: "\<And>p. order_by_desc key (filter (\<lambda>x. part x = p) ?T) = take (nat K) (?S p)"
  proof -
    fix p
    have "order_by_desc key (filter (\<lambda>x. part x = p) ?T)
          = order_by_desc key (filter (\<lambda>r. r \<in> set (take (nat K) (?S p))) (filter (\<lambda>x. part x = p) rows))"
      by (simp only: trim_query_partition[OF assms])
    also have "\<dots> = filter (\<lambda>r. r \<in> set (take (nat K) (?S p))) (?S p)"
      by (simp only: filter_order_by_desc)
    also have "\<dots> = take (nat K) (?S p)"
      by (rule filter_mem_take) (simp add: distinct_order_by_desc drows)
    finally show "order_by_desc key (filter (\<lambda>x. part x = p) ?T) = take (nat K) (?S p)" .
  qed
  have "trim_query idx part key K ?T
        = filter (\<lambda>r. r \<in> set (take (nat K) (order_by_desc key (filter (\<lambda>x. part x = part r) ?T)))) ?T"
    by (rule trim_query_mem[OF dT])
  also have "\<dots> = filter (\<lambda>r. r \<in> set (take (nat K) (?S (part r)))) ?T"
    by (simp only: part take_take min.idem)
  also have "\<dots> = ?T"
    unfolding trim_query_mem[OF assms] by simp
  finally show ?thesis .
qed

subsection \<open>De-duplication\<close>

lemma sql_and_True: "(sql_and a b = Some True) = (a = Some True \<and> b = Some True)"
  by (cases a; cases b) (auto simp: sql_and_def)

lemma sql_eq_True: "(sql_eq a b = Some True) = (a \<noteq> None \<and> a = b)"
  by (cases a; cases b) (auto simp: sql_eq_def)

lemma pholus_same_True:
  "(pholus_same a b = Some True)
   = ((ps_MAC a \<noteq> None \<and> ps_Value a \<noteq> None \<and> ps_Record_Type a \<noteq> None)
      \<and> (ps_MAC a, ps_Value a, ps_Record_Type a) = (ps_MAC b, ps_Value b, ps_Record_Type b))"
  by (auto simp: pholus_same_def sql_and_True sql_eq_True)

lemma objects_same_True:
  "(objects_same a b = Some True)
   = ((po_Plugin a \<noteq> None \<and> po_Object_PrimaryID a \<noteq> None \<and> po_Object_SecondaryID a \<noteq> None
         \<and> po_UserData a \<noteq> None)
      \<and> (po_Plugin a, po_Object_PrimaryID a, po_Object_SecondaryID a, po_UserData a)
          = (po_Plugin b, po_Object_PrimaryID b, po_Object_SecondaryID b, po_UserData b))"
  by (auto simp: objects_same_def sql_and_True sql_eq_True)

lemma dedup_query_subset: "set (dedup_query rowid same rows) \<subseteq> set rows"
  by (auto simp: dedup_query_def sql_delete_def)

lemma dedup_query_mem:
  assumes same: "\<And>a b. (same a b = Some True) = (full a \<and> k a = k b)"
  shows "(r \<in> set (dedup_query rowid same rows))
         = (r \<in> set rows \<and> (full r \<longrightarrow> rowid r = Min (rowid ` {g \<in> set rows. k g = k r})))"
proof (cases "r \<in> set rows")
  case False
  then show ?thesis using dedup_query_subset[of rowid same rows] by auto
next
  case inrows: True
  show ?thesis
  proof (cases "full r")
    case False
    then have "filter (\<lambda>p2. same r p2 = Some True) rows = []"
      by (simp add: same filter_empty_conv)
    then show ?thesis using inrows False
      by (simp add: dedup_query_def sql_delete_def sql_min_def sql_gt_def sql_lt_def)
  next
    case True
    let ?G = "{g \<in> set rows. k g = k r}"
    have fil: "filter (\<lambda>p2. same r p2 = Some True) rows = filter (\<lambda>g. k g = k r) rows"
      using True by (auto simp: same intro: filter_cong)
    have ne: "filter (\<lambda>g. k g = k r) rows \<noteq> []"
      using inrows by (auto simp: filter_empty_conv)
    have G: "set (map rowid (filter (\<lambda>g. k g = k r) rows)) = rowid ` ?G" by auto
    have le: "Min (rowid ` ?G) \<le> rowid r"
      using inrows by (intro Min_le) auto
    have "(r \<in> set (dedup_query rowid same rows))
          = (sql_gt (Some (rowid r))
               (sql_min (map rowid (filter (\<lambda>p2. same r p2 = Some True) rows))) \<noteq> Some True)"
      using inrows by (simp add: dedup_query_def sql_delete_def)
    also have "\<dots> = (\<not> Min (rowid ` ?G) < rowid r)"
      using ne unfolding fil sql_min_def G by (simp add: sql_gt_def sql_lt_def)
    finally have "(r \<in> set (dedup_query rowid same rows)) = (\<not> Min (rowid ` ?G) < rowid r)" .
    moreover have "(\<not> Min (rowid ` ?G) < rowid r) = (rowid r = Min (rowid ` ?G))"
      using le by linarith
    ultimately show ?thesis using inrows True by simp
  qed
qed

lemma dedup_query_idem:
  assumes same: "\<And>a b. (same a b = Some True) = (full a \<and> k a = k b)"
  shows "dedup_query rowid same (dedup_query rowid same rows) = dedup_query rowid same rows"
proof -
  let ?D = "dedup_query rowid same rows"
  have "\<And>r. r \<in> set ?D \<Longrightarrow> r \<in> set (dedup_query rowid same ?D)"
  proof -
    fix r assume r: "r \<in> set ?D"
    then have inrows: "r \<in> set rows"
      and m: "full r \<longrightarrow> rowid r = Min (rowid ` {g \<in> set rows. k g = k r})"
      by (simp_all add: dedup_query_mem[of same full k, OF same])
    have "full r \<longrightarrow> rowid r = Min (rowid ` {g \<in> set ?D. k g = k r})"
    proof
      assume f: "full r"
      have sub: "rowid ` {g \<in> set ?D. k g = k r} \<subseteq> rowid ` {g \<in> set rows. k g = k r}"
        using dedup_query_subset[of rowid same rows] by auto
      have mem: "rowid r \<in> rowid ` {g \<in> set ?D. k g = k r}" using r by auto
      have "Min (rowid ` {g \<in> set rows. k g = k r}) \<le> Min (rowid ` {g \<in> set ?D. k g = k r})"
        using sub mem by (intro Min_antimono) auto
      moreover have "Min (rowid ` {g \<in> set ?D. k g = k r}) \<le> rowid r"
        using mem by (intro Min_le) auto
      ultimately show "rowid r = Min (rowid ` {g \<in> set ?D. k g = k r})"
        using m f by simp
    qed
    with r show "r \<in> set (dedup_query rowid same ?D)"
      by (simp add: dedup_query_mem[of same full k, OF same])
  qed
  then have "filter (\<lambda>r. r \<in> set (dedup_query rowid same ?D)) ?D = ?D"
    by (simp add: filter_id_conv)
  moreover have "dedup_query rowid same ?D = filter (\<lambda>r. r \<in> set (dedup_query rowid same ?D)) ?D"
    unfolding dedup_query_def[of rowid same ?D] sql_delete_def
    by (rule filter_cong[OF refl]) simp
  ultimately show ?thesis by simp
qed

subsection \<open>Runs\<close>

lemma run_eq:
  "run fails step as w =
     ((case dropWhile (\<lambda>a. \<not> fails a) as of [] \<Rightarrow> None | a # _ \<Rightarrow> Some a),
      foldl (\<lambda>w a. step a w) w (takeWhile (\<lambda>a. \<not> fails a) as))"
  by (induction as arbitrary: w) auto

lemma run_None: "(fst (run fails step as w) = None) = (\<forall>a\<in>set as. \<not> fails a)"
  by (induction as arbitrary: w) auto

lemma run_success:
  "run fails step as w = (None, w') \<Longrightarrow> w' = foldl (\<lambda>w a. step a w) w as"
proof -
  assume r: "run fails step as w = (None, w')"
  then have "\<forall>a\<in>set as. \<not> fails a" using run_None[of fails step as w] by simp
  then have "takeWhile (\<lambda>a. \<not> fails a) as = as" by (simp add: takeWhile_eq_all_conv)
  with r show ?thesis by (simp add: run_eq)
qed

lemma trace_foldl_perform:
  "trace (foldl (\<lambda>w a. perform clock st p a w) w as) = trace w @ as"
  by (induction as arbitrary: w) (auto simp: perform_def)

lemma limit_query_mem:
  assumes "distinct (map idx rows)"
  shows "sql_delete (\<lambda>r. sql_not_in (idx r) (map idx (take n (order_by_desc key rows)))) rows
         = filter (\<lambda>r. r \<in> set (take n (order_by_desc key rows))) rows"
proof -
  have inj: "inj_on idx (set rows)" using assms by (simp add: distinct_map)
  have sub: "set (take n (order_by_desc key rows)) \<subseteq> set rows"
    using set_order_by_desc[of key rows] by (auto dest: in_set_takeD)
  have "\<And>r. r \<in> set rows \<Longrightarrow>
          (idx r \<in> idx ` set (take n (order_by_desc key rows))) = (r \<in> set (take n (order_by_desc key rows)))"
    using inj sub by (auto dest: inj_onD)
  then show ?thesis
    unfolding sql_delete_def sql_not_in_def by (auto intro: filter_cong)
qed

lemma limit_query_trim:
  assumes "distinct (map idx rows)"
  shows "sql_delete (\<lambda>r. sql_not_in (idx r) (map idx (take (nat K) (order_by_desc key rows)))) rows
         = trim_query idx (\<lambda>r. ()) key K rows"
  by (simp only: limit_query_mem[OF assms] trim_query_const[OF assms])

lemma top_rows_facts:
  assumes "distinct (map idx rows)"
  shows "length (filter (\<lambda>r. r \<in> set (take n (order_by_desc key rows))) rows) = min n (length rows)"
    and "set (filter (\<lambda>r. r \<in> set (take n (order_by_desc key rows))) rows)
         = set (take n (order_by_desc key rows))"
    and "\<forall>r\<in>set (filter (\<lambda>r. r \<in> set (take n (order_by_desc key rows))) rows).
           \<forall>d\<in>set rows - set (filter (\<lambda>r. r \<in> set (take n (order_by_desc key rows))) rows).
             key d \<le> key r"
proof -
  have d: "distinct rows" using assms(1) by (simp add: distinct_map)
  show "length (filter (\<lambda>r. r \<in> set (take n (order_by_desc key rows))) rows) = min n (length rows)"
    by (rule length_filter_mem_top[OF d])
  show s: "set (filter (\<lambda>r. r \<in> set (take n (order_by_desc key rows))) rows)
         = set (take n (order_by_desc key rows))"
    by (rule set_filter_mem_top)
  show "\<forall>r\<in>set (filter (\<lambda>r. r \<in> set (take n (order_by_desc key rows))) rows).
           \<forall>d\<in>set rows - set (filter (\<lambda>r. r \<in> set (take n (order_by_desc key rows))) rows).
             key d \<le> key r"
    unfolding s
    using take_dominates[OF sorted_order_by_desc, of _ n key rows] set_order_by_desc[of key rows]
    by blast
qed

section \<open>A run that completes\<close>

lemma success_world:
  assumes "cleanup_database fails clock st p db = (None, w)"
  shows "w = foldl (\<lambda>w a. perform clock st p a w) (initial db) (script p)"
  using assms unfolding cleanup_database_def by (rule run_success)

lemma success_disk:
  assumes "cleanup_database fails clock st p db = (None, w)"
  shows "disk w =
     dedup_plugins_objects (dedup_pholus_scan
       ((if PHOLUS_DAYS_DATA p \<noteq> None \<and> PHOLUS_DAYS_DATA p \<noteq> Some 0
         then delete_pholus_scan (clock DeletePholusScan) p else id)
       ((if HRS_TO_KEEP_NEWDEV p \<noteq> 0 then delete_new_devices (clock DeleteNewDevices) p else id)
       (trim_appevents st (trim_notifications st (trim_plugins_history p
       (delete_events (clock DeleteEvents) p (delete_online_history db))))))))"
  unfolding success_world[OF assms] script_def delete_statements_def
  by (simp add: perform_def current_def initial_def)

lemma success_tables:
  assumes "cleanup_database fails clock st p db = (None, w)"
  shows "Online_History (disk w) =
           sql_delete (\<lambda>r. sql_not_in (oh_Index r)
                (map oh_Index (take 150 (order_by_desc Scan_Date (Online_History db)))))
             (Online_History db)"
    and "Events (disk w) =
           sql_delete (\<lambda>r. sql_le (eve_DateTime r) (events_cutoff (clock DeleteEvents) p)) (Events db)"
    and "Plugins_History (disk w) =
           trim_query ph_Index ph_Plugin ph_DateTimeChanged (PLUGINS_KEEP_HIST p) (Plugins_History db)"
    and "Notifications (disk w) =
           trim_query nt_Index (\<lambda>r. ''Notifications'') nt_DateTimeCreated (DBCLNP_NOTIFI_HIST st)
             (Notifications db)"
    and "AppEvents (disk w) =
           trim_query ae_Index (\<lambda>r. ''AppEvents'') ae_DateTimeCreated (WORKFLOWS_AppEvents_hist st)
             (AppEvents db)"
    and "Devices (disk w) =
           (if HRS_TO_KEEP_NEWDEV p \<noteq> 0
            then sql_delete (new_devices_where (clock DeleteNewDevices) p) (Devices db)
            else Devices db)"
    and "Pholus_Scan (disk w) =
           dedup_query ps_rowid pholus_same
             (if PHOLUS_DAYS_DATA p \<noteq> None \<and> PHOLUS_DAYS_DATA p \<noteq> Some 0
              then sql_delete (\<lambda>r. sql_le (ps_Time r) (pholus_cutoff (clock DeletePholusScan) p))
                     (Pholus_Scan db)
              else Pholus_Scan db)"
    and "Plugins_Objects (disk w) = dedup_query po_rowid objects_same (Plugins_Objects db)"
    and "other_tables (disk w) = other_tables db"
  unfolding success_disk[OF assms]
  by (simp_all add: dedup_plugins_objects_def dedup_pholus_scan_def delete_pholus_scan_def
      delete_new_devices_def trim_appevents_def trim_notifications_def trim_plugins_history_def
      delete_events_def delete_online_history_def)

section \<open>Online\_History\<close>

text \<open>
  C4. After a run that completes, \<^verbatim>\<open>Online_History\<close> holds at most 150 rows (the
  smaller of 150 and what it held), and no retained row has a \<^verbatim>\<open>Scan_Date\<close> below that
  of a deleted row; rows with equal dates may fall on either side. \<^verbatim>\<open>"Index"\<close> is the
  table's primary key.
\<close>

theorem online_history_keeps_latest_150:
  assumes "cleanup_database fails clock st p db = (None, w)"
    and "distinct (map oh_Index (Online_History db))"
  shows "length (Online_History (disk w)) \<le> 150
       \<and> length (Online_History (disk w)) = min 150 (length (Online_History db))
       \<and> (\<forall>r\<in>set (Online_History (disk w)).
            \<forall>d\<in>set (Online_History db) - set (Online_History (disk w)). Scan_Date d \<le> Scan_Date r)"
proof -
  have eq: "Online_History (disk w)
        = filter (\<lambda>r. r \<in> set (take 150 (order_by_desc Scan_Date (Online_History db)))) (Online_History db)"
    unfolding success_tables(1)[OF assms(1)] by (rule limit_query_mem[OF assms(2)])
  show ?thesis
    unfolding eq using top_rows_facts[OF assms(2), of 150 Scan_Date] by simp
qed

lemma seed_run_ok: "cleanup_database no_failure seed_clock seed_settings seed_params seed_db = (None, snd seed_run)"
proof -
  have "fst seed_run = None" by code_simp
  then have "seed_run = (None, snd seed_run)" by (simp add: prod_eq_iff)
  then show ?thesis by (simp only: seed_run_def[symmetric])
qed

lemma no_failure_completes: "fst (cleanup_database no_failure clock st p db) = None"
  by (simp add: cleanup_database_def run_None no_failure_def)

lemma no_failure_run:
  "cleanup_database no_failure clock st p db = (None, snd (cleanup_database no_failure clock st p db))"
  using no_failure_completes[of clock st p db] by (simp add: prod_eq_iff)

text \<open>A table of 152 rows with distinct indices: the run leaves 150 of them.\<close>

theorem online_history_keeps_latest_150_witness:
  "fst long_history_run = None
   \<and> distinct (map oh_Index (Online_History long_history_db))
   \<and> length (Online_History long_history_db) = 152
   \<and> length (Online_History (disk (snd long_history_run))) = 150"
proof -
  have ok: "fst long_history_run = None"
    unfolding long_history_run_def by (rule no_failure_completes)
  have d: "distinct (map oh_Index (Online_History long_history_db))"
    by (simp add: long_history_db_def comp_def)
  have l: "length (Online_History long_history_db) = 152"
    by (simp add: long_history_db_def)
  have "length (Online_History (disk (snd long_history_run)))
        = min 150 (length (Online_History long_history_db))"
    using online_history_keeps_latest_150[
        OF no_failure_run[of seed_clock seed_settings seed_params long_history_db] d]
    unfolding long_history_run_def by blast
  with ok d l show ?thesis by simp
qed

section \<open>Plugins\_History\<close>

text \<open>
  C1. After a run that completes with \<^verbatim>\<open>PLUGINS_KEEP_HIST\<close> = K, for every value of
  \<^verbatim>\<open>Plugin\<close>: at most K rows with that value remain (for K \<open>\<ge>\<close> 0); they are the first K
  rows of that plugin in descending \<^verbatim>\<open>DateTimeChanged\<close> order (all of them when there are
  fewer), so no retained row is older than a deleted row of the same plugin; and they are
  what the statement leaves of that plugin's rows taken alone, whatever the other plugins
  hold.
\<close>

theorem plugins_history_keeps_newest_per_plugin:
  assumes "cleanup_database fails clock st p db = (None, w)"
    and "distinct (map ph_Index (Plugins_History db))"
  shows "(0 \<le> PLUGINS_KEEP_HIST p \<longrightarrow>
            int (length (filter (\<lambda>r. ph_Plugin r = plugin) (Plugins_History (disk w)))) \<le> PLUGINS_KEEP_HIST p)
       \<and> length (filter (\<lambda>r. ph_Plugin r = plugin) (Plugins_History (disk w)))
           = min (nat (PLUGINS_KEEP_HIST p)) (length (filter (\<lambda>r. ph_Plugin r = plugin) (Plugins_History db)))
       \<and> set (filter (\<lambda>r. ph_Plugin r = plugin) (Plugins_History (disk w)))
           = set (take (nat (PLUGINS_KEEP_HIST p))
                   (order_by_desc ph_DateTimeChanged (filter (\<lambda>r. ph_Plugin r = plugin) (Plugins_History db))))
       \<and> (\<forall>r\<in>set (filter (\<lambda>r. ph_Plugin r = plugin) (Plugins_History (disk w))).
            \<forall>d\<in>set (filter (\<lambda>r. ph_Plugin r = plugin) (Plugins_History db))
                - set (filter (\<lambda>r. ph_Plugin r = plugin) (Plugins_History (disk w))).
              ph_DateTimeChanged d \<le> ph_DateTimeChanged r)
       \<and> filter (\<lambda>r. ph_Plugin r = plugin) (Plugins_History (disk w))
           = trim_query ph_Index ph_Plugin ph_DateTimeChanged (PLUGINS_KEEP_HIST p)
               (filter (\<lambda>r. ph_Plugin r = plugin) (Plugins_History db))"
proof -
  let ?K = "PLUGINS_KEEP_HIST p"
  let ?before = "filter (\<lambda>r. ph_Plugin r = plugin) (Plugins_History db)"
  let ?after = "filter (\<lambda>r. ph_Plugin r = plugin) (Plugins_History (disk w))"
  have after: "Plugins_History (disk w)
               = trim_query ph_Index ph_Plugin ph_DateTimeChanged ?K (Plugins_History db)"
    by (rule success_tables(3)[OF assms(1)])
  have d: "distinct (map ph_Index ?before)"
    using assms(2) by (rule distinct_map_filter)
  have eq: "?after = filter (\<lambda>r. r \<in> set (take (nat ?K) (order_by_desc ph_DateTimeChanged ?before))) ?before"
    unfolding after by (rule trim_query_partition[OF assms(2)])
  have len: "length ?after = min (nat ?K) (length ?before)"
    unfolding eq by (rule top_rows_facts(1)[OF d])
  have top: "set ?after = set (take (nat ?K) (order_by_desc ph_DateTimeChanged ?before))"
    unfolding eq by (rule top_rows_facts(2)[OF d])
  have dom: "\<forall>r\<in>set ?after. \<forall>d\<in>set ?before - set ?after. ph_DateTimeChanged d \<le> ph_DateTimeChanged r"
    unfolding eq by (rule top_rows_facts(3)[OF d])
  have ind: "?after = trim_query ph_Index ph_Plugin ph_DateTimeChanged ?K ?before"
    unfolding after by (rule trim_query_independent[OF assms(2)])
  have cap: "0 \<le> ?K \<longrightarrow> int (length ?after) \<le> ?K"
    using len by linarith
  from cap len top dom ind show ?thesis by (intro conjI)
qed

text \<open>
  The seeded run: of the five rows of plugin \<^verbatim>\<open>X\<close> the three newest remain with K = 3,
  and the rows of plugin \<^verbatim>\<open>Y\<close> are untouched.
\<close>

theorem plugins_history_keeps_newest_per_plugin_witness:
  "fst seed_run = None
   \<and> distinct (map ph_Index (Plugins_History seed_db))
   \<and> 0 \<le> PLUGINS_KEEP_HIST seed_params
   \<and> map ph_Index (filter (\<lambda>r. ph_Plugin r = Some ''X'') (Plugins_History seed_db)) = [1, 2, 4, 5, 7]
   \<and> map ph_Index (filter (\<lambda>r. ph_Plugin r = Some ''X'') (Plugins_History (disk (snd seed_run)))) = [4, 5, 7]
   \<and> map ph_Index (filter (\<lambda>r. ph_Plugin r \<noteq> Some ''X'') (Plugins_History (disk (snd seed_run)))) = [3, 6]
   \<and> int (length (filter (\<lambda>r. ph_Plugin r = Some ''X'') (Plugins_History (disk (snd seed_run)))))
        \<le> PLUGINS_KEEP_HIST seed_params
   \<and> filter (\<lambda>r. ph_Plugin r = Some ''X'') (Plugins_History (disk (snd seed_run)))
       = trim_query ph_Index ph_Plugin ph_DateTimeChanged (PLUGINS_KEEP_HIST seed_params)
           (filter (\<lambda>r. ph_Plugin r = Some ''X'') (Plugins_History seed_db))"
proof -
  have ok: "fst seed_run = None" by code_simp
  have d: "distinct (map ph_Index (Plugins_History seed_db))" by code_simp
  have K: "0 \<le> PLUGINS_KEEP_HIST seed_params" by code_simp
  have v1: "map ph_Index (filter (\<lambda>r. ph_Plugin r = Some ''X'') (Plugins_History seed_db)) = [1, 2, 4, 5, 7]"
    by code_simp
  have v2: "map ph_Index (filter (\<lambda>r. ph_Plugin r = Some ''X'') (Plugins_History (disk (snd seed_run)))) = [4, 5, 7]"
    by code_simp
  have v3: "map ph_Index (filter (\<lambda>r. ph_Plugin r \<noteq> Some ''X'') (Plugins_History (disk (snd seed_run)))) = [3, 6]"
    by code_simp
  show ?thesis
    using plugins_history_keeps_newest_per_plugin[OF seed_run_ok d, of "Some ''X''"] ok d K v1 v2 v3
    by blast
qed

section \<open>Notifications and AppEvents\<close>

lemma global_cap_facts:
  assumes "distinct (map idx rows)"
  shows "(0 \<le> K \<longrightarrow> int (length (trim_query idx (\<lambda>r. c) key K rows)) \<le> K)
       \<and> length (trim_query idx (\<lambda>r. c) key K rows) = min (nat K) (length rows)
       \<and> set (trim_query idx (\<lambda>r. c) key K rows) = set (take (nat K) (order_by_desc key rows))
       \<and> (\<forall>r\<in>set (trim_query idx (\<lambda>r. c) key K rows).
             \<forall>d\<in>set rows - set (trim_query idx (\<lambda>r. c) key K rows). key d \<le> key r)"
proof -
  have len: "length (trim_query idx (\<lambda>r. c) key K rows) = min (nat K) (length rows)"
    unfolding trim_query_const[OF assms] by (rule top_rows_facts(1)[OF assms])
  have top: "set (trim_query idx (\<lambda>r. c) key K rows) = set (take (nat K) (order_by_desc key rows))"
    unfolding trim_query_const[OF assms] by (rule top_rows_facts(2)[OF assms])
  have dom: "\<forall>r\<in>set (trim_query idx (\<lambda>r. c) key K rows).
             \<forall>d\<in>set rows - set (trim_query idx (\<lambda>r. c) key K rows). key d \<le> key r"
    unfolding trim_query_const[OF assms] by (rule top_rows_facts(3)[OF assms])
  have cap: "0 \<le> K \<longrightarrow> int (length (trim_query idx (\<lambda>r. c) key K rows)) \<le> K"
    using len by linarith
  from cap len top dom show ?thesis by (intro conjI)
qed

text \<open>
  C2. The ranked deletes on \<^verbatim>\<open>Notifications\<close> and \<^verbatim>\<open>AppEvents\<close> partition by an
  expression that is the same for every row, so each table is one partition: after a run
  that completes with cap K the whole table holds at most K rows (for K \<open>\<ge>\<close> 0), namely the
  first K of the table in descending \<^verbatim>\<open>DateTimeCreated\<close> order, and no retained row is
  older than a deleted one. \<^verbatim>\<open>"Index"\<close> is the primary key of each table.
\<close>

theorem notifications_appevents_global_cap:
  assumes "cleanup_database fails clock st p db = (None, w)"
    and "distinct (map nt_Index (Notifications db))"
    and "distinct (map ae_Index (AppEvents db))"
  shows "((0 \<le> DBCLNP_NOTIFI_HIST st \<longrightarrow>
             int (length (Notifications (disk w))) \<le> DBCLNP_NOTIFI_HIST st)
        \<and> length (Notifications (disk w)) = min (nat (DBCLNP_NOTIFI_HIST st)) (length (Notifications db))
        \<and> set (Notifications (disk w))
            = set (take (nat (DBCLNP_NOTIFI_HIST st)) (order_by_desc nt_DateTimeCreated (Notifications db)))
        \<and> (\<forall>r\<in>set (Notifications (disk w)). \<forall>d\<in>set (Notifications db) - set (Notifications (disk w)).
              nt_DateTimeCreated d \<le> nt_DateTimeCreated r))
       \<and> ((0 \<le> WORKFLOWS_AppEvents_hist st \<longrightarrow>
             int (length (AppEvents (disk w))) \<le> WORKFLOWS_AppEvents_hist st)
        \<and> length (AppEvents (disk w)) = min (nat (WORKFLOWS_AppEvents_hist st)) (length (AppEvents db))
        \<and> set (AppEvents (disk w))
            = set (take (nat (WORKFLOWS_AppEvents_hist st)) (order_by_desc ae_DateTimeCreated (AppEvents db)))
        \<and> (\<forall>r\<in>set (AppEvents (disk w)). \<forall>d\<in>set (AppEvents db) - set (AppEvents (disk w)).
              ae_DateTimeCreated d \<le> ae_DateTimeCreated r))"
  unfolding success_tables(4,5)[OF assms(1)]
  using global_cap_facts[OF assms(2), of "DBCLNP_NOTIFI_HIST st" "''Notifications''" nt_DateTimeCreated]
        global_cap_facts[OF assms(3), of "WORKFLOWS_AppEvents_hist st" "''AppEvents''" ae_DateTimeCreated]
  by (intro conjI) blast+

text \<open>The seeded run: three rows in each table, cap 2, the two newest remain.\<close>

theorem notifications_appevents_global_cap_witness:
  "fst seed_run = None
   \<and> distinct (map nt_Index (Notifications seed_db))
   \<and> distinct (map ae_Index (AppEvents seed_db))
   \<and> 0 \<le> DBCLNP_NOTIFI_HIST seed_settings
   \<and> 0 \<le> WORKFLOWS_AppEvents_hist seed_settings
   \<and> map nt_Index (Notifications (disk (snd seed_run))) = [2, 3]
   \<and> map ae_Index (AppEvents (disk (snd seed_run))) = [2, 3]
   \<and> int (length (Notifications (disk (snd seed_run)))) \<le> DBCLNP_NOTIFI_HIST seed_settings
   \<and> int (length (AppEvents (disk (snd seed_run)))) \<le> WORKFLOWS_AppEvents_hist seed_settings"
proof -
  have ok: "fst seed_run = None" by code_simp
  have d1: "distinct (map nt_Index (Notifications seed_db))" by code_simp
  have d2: "distinct (map ae_Index (AppEvents seed_db))" by code_simp
  have k1: "0 \<le> DBCLNP_NOTIFI_HIST seed_settings" by code_simp
  have k2: "0 \<le> WORKFLOWS_AppEvents_hist seed_settings" by code_simp
  have v1: "map nt_Index (Notifications (disk (snd seed_run))) = [2, 3]" by code_simp
  have v2: "map ae_Index (AppEvents (disk (snd seed_run))) = [2, 3]" by code_simp
  show ?thesis
    using notifications_appevents_global_cap[OF seed_run_ok d1 d2] ok d1 d2 k1 k2 v1 v2
    by blast
qed

section \<open>Pholus\_Scan and Plugins\_Objects: de-duplication\<close>

lemma pholus_same_key:
  "(pholus_same a b = Some True)
   = ((ps_MAC a \<noteq> None \<and> ps_Value a \<noteq> None \<and> ps_Record_Type a \<noteq> None)
      \<and> pholus_key a = pholus_key b)"
  by (simp add: pholus_same_True pholus_key_def)

lemma objects_same_key:
  "(objects_same a b = Some True)
   = ((po_Plugin a \<noteq> None \<and> po_Object_PrimaryID a \<noteq> None \<and> po_Object_SecondaryID a \<noteq> None
         \<and> po_UserData a \<noteq> None)
      \<and> objects_key a = objects_key b)"
  by (simp add: objects_same_True objects_key_def)

lemma dedup_query_unique:
  assumes same: "\<And>a b. (same a b = Some True) = (full a \<and> k a = k b)"
    and full: "\<And>a b. k a = k b \<Longrightarrow> full a = full b"
    and r1: "r1 \<in> set (dedup_query rowid same rows)"
    and r2: "r2 \<in> set (dedup_query rowid same rows)"
    and f1: "full r1" and k: "k r1 = k r2"
  shows "rowid r1 = rowid r2"
proof -
  have f2: "full r2" using full[OF k] f1 by simp
  have "rowid r1 = Min (rowid ` {g \<in> set rows. k g = k r1})"
    using r1 f1 by (simp add: dedup_query_mem[of same full k, OF same])
  moreover have "rowid r2 = Min (rowid ` {g \<in> set rows. k g = k r2})"
    using r2 f2 by (simp add: dedup_query_mem[of same full k, OF same])
  ultimately show ?thesis using k by simp
qed

lemma pholus_full_key:
  "pholus_key a = pholus_key b \<Longrightarrow>
   (ps_MAC a \<noteq> None \<and> ps_Value a \<noteq> None \<and> ps_Record_Type a \<noteq> None)
   = (ps_MAC b \<noteq> None \<and> ps_Value b \<noteq> None \<and> ps_Record_Type b \<noteq> None)"
  by (simp add: pholus_key_def)

lemma objects_full_key:
  "objects_key a = objects_key b \<Longrightarrow>
   (po_Plugin a \<noteq> None \<and> po_Object_PrimaryID a \<noteq> None \<and> po_Object_SecondaryID a \<noteq> None
      \<and> po_UserData a \<noteq> None)
   = (po_Plugin b \<noteq> None \<and> po_Object_PrimaryID b \<noteq> None \<and> po_Object_SecondaryID b \<noteq> None
      \<and> po_UserData b \<noteq> None)"
  by (simp add: objects_key_def)

text \<open>
  C3, as amended. After a run that completes, among rows whose key columns are all
  non-\<^verbatim>\<open>NULL\<close>: two retained rows of \<^verbatim>\<open>Pholus_Scan\<close> with the same (MAC, Value,
  Record\_Type), and two retained rows of \<^verbatim>\<open>Plugins_Objects\<close> with the same (Plugin,
  Object\_PrimaryID, Object\_SecondaryID, UserData), have the same row id, that is, they are
  one row; and a row is retained exactly when its row id is the smallest of its group, for
  groups of any size. The groups of \<^verbatim>\<open>Plugins_Objects\<close> are those of the table before the
  run; the groups of \<^verbatim>\<open>Pholus_Scan\<close> are those of the rows that the age-out statement of the
  same run has left (all rows when \<^verbatim>\<open>PHOLUS_DAYS_DATA\<close> is empty or 0).
\<close>

theorem dedup_keeps_smallest_rowid_of_group:
  fixes fails clock st p and db :: "'o database" and w
  defines "aged \<equiv> Pholus_Scan (if PHOLUS_DAYS_DATA p \<noteq> None \<and> PHOLUS_DAYS_DATA p \<noteq> Some 0
                                 then delete_pholus_scan (clock DeletePholusScan) p db else db)"
  assumes run: "cleanup_database fails clock st p db = (None, w)"
  shows "(\<forall>r1\<in>set (Pholus_Scan (disk w)). \<forall>r2\<in>set (Pholus_Scan (disk w)).
            ps_MAC r1 \<noteq> None \<and> ps_Value r1 \<noteq> None \<and> ps_Record_Type r1 \<noteq> None
            \<and> pholus_key r1 = pholus_key r2 \<longrightarrow> ps_rowid r1 = ps_rowid r2)
       \<and> (\<forall>r\<in>set aged.
            ps_MAC r \<noteq> None \<and> ps_Value r \<noteq> None \<and> ps_Record_Type r \<noteq> None \<longrightarrow>
            (r \<in> set (Pholus_Scan (disk w)))
              = (ps_rowid r = Min (ps_rowid ` {g \<in> set aged. pholus_key g = pholus_key r})))
       \<and> set (Pholus_Scan (disk w)) \<subseteq> set aged
       \<and> (\<forall>r1\<in>set (Plugins_Objects (disk w)). \<forall>r2\<in>set (Plugins_Objects (disk w)).
            po_Plugin r1 \<noteq> None \<and> po_Object_PrimaryID r1 \<noteq> None
            \<and> po_Object_SecondaryID r1 \<noteq> None \<and> po_UserData r1 \<noteq> None
            \<and> objects_key r1 = objects_key r2 \<longrightarrow> po_rowid r1 = po_rowid r2)
       \<and> (\<forall>r\<in>set (Plugins_Objects db).
            po_Plugin r \<noteq> None \<and> po_Object_PrimaryID r \<noteq> None
            \<and> po_Object_SecondaryID r \<noteq> None \<and> po_UserData r \<noteq> None \<longrightarrow>
            (r \<in> set (Plugins_Objects (disk w)))
              = (po_rowid r = Min (po_rowid ` {g \<in> set (Plugins_Objects db). objects_key g = objects_key r})))
       \<and> set (Plugins_Objects (disk w)) \<subseteq> set (Plugins_Objects db)"
proof -
  have ps: "Pholus_Scan (disk w) = dedup_query ps_rowid pholus_same aged"
    unfolding aged_def success_tables(7)[OF run] by (simp add: delete_pholus_scan_def)
  have po: "Plugins_Objects (disk w) = dedup_query po_rowid objects_same (Plugins_Objects db)"
    by (rule success_tables(8)[OF run])
  have a: "\<forall>r1\<in>set (Pholus_Scan (disk w)). \<forall>r2\<in>set (Pholus_Scan (disk w)).
            ps_MAC r1 \<noteq> None \<and> ps_Value r1 \<noteq> None \<and> ps_Record_Type r1 \<noteq> None
            \<and> pholus_key r1 = pholus_key r2 \<longrightarrow> ps_rowid r1 = ps_rowid r2"
  proof (intro ballI impI)
    fix r1 r2
    assume "r1 \<in> set (Pholus_Scan (disk w))" "r2 \<in> set (Pholus_Scan (disk w))"
      and "ps_MAC r1 \<noteq> None \<and> ps_Value r1 \<noteq> None \<and> ps_Record_Type r1 \<noteq> None
            \<and> pholus_key r1 = pholus_key r2"
    then show "ps_rowid r1 = ps_rowid r2"
      unfolding ps
      by (intro dedup_query_unique[of pholus_same _ pholus_key, OF pholus_same_key pholus_full_key])
        simp_all
  qed
  have b: "\<forall>r\<in>set aged.
            ps_MAC r \<noteq> None \<and> ps_Value r \<noteq> None \<and> ps_Record_Type r \<noteq> None \<longrightarrow>
            (r \<in> set (Pholus_Scan (disk w)))
              = (ps_rowid r = Min (ps_rowid ` {g \<in> set aged. pholus_key g = pholus_key r}))"
    unfolding ps by (simp add: dedup_query_mem[of pholus_same _ pholus_key, OF pholus_same_key])
  have c: "set (Pholus_Scan (disk w)) \<subseteq> set aged"
    unfolding ps by (rule dedup_query_subset)
  have d: "\<forall>r1\<in>set (Plugins_Objects (disk w)). \<forall>r2\<in>set (Plugins_Objects (disk w)).
            po_Plugin r1 \<noteq> None \<and> po_Object_PrimaryID r1 \<noteq> None
            \<and> po_Object_SecondaryID r1 \<noteq> None \<and> po_UserData r1 \<noteq> None
            \<and> objects_key r1 = objects_key r2 \<longrightarrow> po_rowid r1 = po_rowid r2"
  proof (intro ballI impI)
    fix r1 r2
    assume "r1 \<in> set (Plugins_Objects (disk w))" "r2 \<in> set (Plugins_Objects (disk w))"
      and "po_Plugin r1 \<noteq> None \<and> po_Object_PrimaryID r1 \<noteq> None
            \<and> po_Object_SecondaryID r1 \<noteq> None \<and> po_UserData r1 \<noteq> None
            \<and> objects_key r1 = objects_key r2"
    then show "po_rowid r1 = po_rowid r2"
      unfolding po
      by (intro dedup_query_unique[of objects_same _ objects_key, OF objects_same_key objects_full_key])
        simp_all
  qed
  have e: "\<forall>r\<in>set (Plugins_Objects db).
            po_Plugin r \<noteq> None \<and> po_Object_PrimaryID r \<noteq> None
            \<and> po_Object_SecondaryID r \<noteq> None \<and> po_UserData r \<noteq> None \<longrightarrow>
            (r \<in> set (Plugins_Objects (disk w)))
              = (po_rowid r = Min (po_rowid ` {g \<in> set (Plugins_Objects db). objects_key g = objects_key r}))"
    unfolding po by (simp add: dedup_query_mem[of objects_same _ objects_key, OF objects_same_key])
  have f: "set (Plugins_Objects (disk w)) \<subseteq> set (Plugins_Objects db)"
    unfolding po by (rule dedup_query_subset)
  from a b c d e f show ?thesis by (intro conjI)
qed

text \<open>
  The claim as stated fails on \<open>aged_pholus_db\<close> with \<^verbatim>\<open>PHOLUS_DAYS_DATA\<close> = 30: the rows 5, 7
  and 9 share one key, row 5 goes with the age-out and row 7 is the one retained; the
  rows 11 and 12 agree on the three columns with a \<^verbatim>\<open>NULL\<close> MAC and both stay.
\<close>

theorem dedup_smallest_rowid_counterexample:
  "map ps_rowid (Pholus_Scan aged_pholus_db) = [5, 7, 9, 11, 12]
   \<and> map pholus_key (Pholus_Scan aged_pholus_db)
       = [(Some ''AA:BB'', Some ''v1'', Some ''A''), (Some ''AA:BB'', Some ''v1'', Some ''A''),
          (Some ''AA:BB'', Some ''v1'', Some ''A''), (None, Some ''v1'', Some ''A''),
          (None, Some ''v1'', Some ''A'')]
   \<and> fst aged_pholus_run = None
   \<and> map ps_rowid (Pholus_Scan (disk (snd aged_pholus_run))) = [7, 11, 12]"
  by code_simp

text \<open>
  The seeded run: of the three \<^verbatim>\<open>Pholus_Scan\<close> rows 5, 7, 9 with key (AA:BB, v1, A) only
  row 5 remains; of the \<^verbatim>\<open>Plugins_Objects\<close> rows 21 and 20 with one key, row 20 remains.
\<close>

theorem dedup_keeps_smallest_rowid_of_group_witness:
  "fst seed_run = None
   \<and> map ps_rowid (Pholus_Scan seed_db) = [5, 7, 8, 9]
   \<and> map ps_rowid (Pholus_Scan (disk (snd seed_run))) = [5, 8]
   \<and> map po_rowid (Plugins_Objects seed_db) = [21, 20, 22]
   \<and> map po_rowid (Plugins_Objects (disk (snd seed_run))) = [20, 22]
   \<and> objects_key (hd (Plugins_Objects (disk (snd seed_run))))
       = (Some ''X'', Some ''AA:BB'', Some ''192.168.1.2'', Some ''u'')
   \<and> po_rowid (hd (Plugins_Objects (disk (snd seed_run))))
       = Min (po_rowid ` {g \<in> set (Plugins_Objects seed_db).
                objects_key g = objects_key (hd (Plugins_Objects (disk (snd seed_run))))})"
proof -
  let ?r = "hd (Plugins_Objects (disk (snd seed_run)))"
  have ok: "fst seed_run = None" by code_simp
  have v1: "map ps_rowid (Pholus_Scan seed_db) = [5, 7, 8, 9]" by code_simp
  have v2: "map ps_rowid (Pholus_Scan (disk (snd seed_run))) = [5, 8]" by code_simp
  have v3: "map po_rowid (Plugins_Objects seed_db) = [21, 20, 22]" by code_simp
  have v4: "map po_rowid (Plugins_Objects (disk (snd seed_run))) = [20, 22]" by code_simp
  have k: "objects_key ?r = (Some ''X'', Some ''AA:BB'', Some ''192.168.1.2'', Some ''u'')"
    by code_simp
  have m1: "?r \<in> set (Plugins_Objects seed_db)" by code_simp
  have m2: "?r \<in> set (Plugins_Objects (disk (snd seed_run)))" by code_simp
  have full: "po_Plugin ?r \<noteq> None \<and> po_Object_PrimaryID ?r \<noteq> None
              \<and> po_Object_SecondaryID ?r \<noteq> None \<and> po_UserData ?r \<noteq> None"
    using k by (simp add: objects_key_def)
  have "\<forall>r\<in>set (Plugins_Objects seed_db).
            po_Plugin r \<noteq> None \<and> po_Object_PrimaryID r \<noteq> None
            \<and> po_Object_SecondaryID r \<noteq> None \<and> po_UserData r \<noteq> None \<longrightarrow>
            (r \<in> set (Plugins_Objects (disk (snd seed_run))))
              = (po_rowid r = Min (po_rowid ` {g \<in> set (Plugins_Objects seed_db). objects_key g = objects_key r}))"
    using dedup_keeps_smallest_rowid_of_group[OF seed_run_ok] by (elim conjE)
  with m1 m2 full have
    "po_rowid ?r = Min (po_rowid ` {g \<in> set (Plugins_Objects seed_db). objects_key g = objects_key ?r})"
    by blast
  with ok v1 v2 v3 v4 k show ?thesis by (intro conjI)
qed

section \<open>Events\<close>

lemma sql_le_True: "(sql_le a b = Some True) = (case (a, b) of (Some x, Some y) \<Rightarrow> x \<le> y | _ \<Rightarrow> False)"
  by (cases a; cases b) (simp_all add: sql_le_def)

lemma sql_lt_True: "(sql_lt a b = Some True) = (case (a, b) of (Some x, Some y) \<Rightarrow> x < y | _ \<Rightarrow> False)"
  by (cases a; cases b) (simp_all add: sql_lt_def)

lemma sql_delete_none: "(\<And>r. r \<in> set rows \<Longrightarrow> c r \<noteq> Some True) \<Longrightarrow> sql_delete c rows = rows"
  by (simp add: sql_delete_def)

text \<open>
  C5, as amended. After a run that completes with \<^verbatim>\<open>DAYS_TO_KEEP_EVENTS\<close> = N, the
  \<^verbatim>\<open>Events\<close> rows deleted are exactly those whose \<^verbatim>\<open>eve_DateTime\<close> text is at or before
  (bytewise \<open>\<le>\<close>) the text of \<^verbatim>\<open>date('now', '-N day')\<close>, which is the calendar date, without
  a time of day, of the instant N days before the clock reading; every retained row has a
  \<^verbatim>\<open>NULL\<close> timestamp or a text above that date. When N is negative or that instant is
  outside the range SQLite represents, the cutoff is \<^verbatim>\<open>NULL\<close> and no row is deleted.
\<close>

theorem events_deleted_up_to_cutoff_date:
  fixes fails clock st p and db :: "'o database" and w
  defines "now \<equiv> clock DeleteEvents"
  defines "N \<equiv> DAYS_TO_KEEP_EVENTS p"
  assumes run: "cleanup_database fails clock st p db = (None, w)"
  shows "Events (disk w)
           = filter (\<lambda>r. case (eve_DateTime r, events_cutoff now p) of
                           (Some ts, Some date) \<Rightarrow> date < ts | _ \<Rightarrow> True) (Events db)
       \<and> (0 \<le> N \<and> valid_instant (now - N * 86400) \<longrightarrow>
            events_cutoff now p = Some (date_text ((now - N * 86400) div 86400)))
       \<and> (N < 0 \<or> \<not> valid_instant (now - N * 86400) \<longrightarrow>
            events_cutoff now p = None \<and> Events (disk w) = Events db)"
proof -
  have ev: "Events (disk w) = sql_delete (\<lambda>r. sql_le (eve_DateTime r) (events_cutoff now p)) (Events db)"
    unfolding now_def by (rule success_tables(2)[OF run])
  have a: "Events (disk w)
           = filter (\<lambda>r. case (eve_DateTime r, events_cutoff now p) of
                           (Some ts, Some date) \<Rightarrow> date < ts | _ \<Rightarrow> True) (Events db)"
    unfolding ev sql_delete_def sql_le_True
    by (rule filter_cong[OF refl]) (auto split: option.splits)
  have b: "0 \<le> N \<and> valid_instant (now - N * 86400) \<longrightarrow>
            events_cutoff now p = Some (date_text ((now - N * 86400) div 86400))"
    by (simp add: events_cutoff_def sqlite_date_now_minus_def N_def)
  have c: "N < 0 \<or> \<not> valid_instant (now - N * 86400) \<longrightarrow>
            events_cutoff now p = None \<and> Events (disk w) = Events db"
  proof
    assume "N < 0 \<or> \<not> valid_instant (now - N * 86400)"
    then have n: "events_cutoff now p = None"
      by (auto simp: events_cutoff_def sqlite_date_now_minus_def N_def)
    then show "events_cutoff now p = None \<and> Events (disk w) = Events db"
      unfolding a by (simp add: filter_id_conv split: option.splits)
  qed
  from a b c show ?thesis by (intro conjI)
qed

text \<open>
  The seeded run, ten days after 2024-01-01 12:00:00: the cutoff is the text 2024-01-01, the
  event of 2023-12-31 goes and the event of 2024-01-05 stays.
\<close>

theorem events_deleted_up_to_cutoff_date_witness:
  "fst seed_run = None
   \<and> 0 \<le> DAYS_TO_KEEP_EVENTS seed_params
   \<and> valid_instant (seed_clock DeleteEvents - DAYS_TO_KEEP_EVENTS seed_params * 86400)
   \<and> events_cutoff (seed_clock DeleteEvents) seed_params = Some ''2024-01-01''
   \<and> map eve_DateTime (Events seed_db) = [Some ''2023-12-31 23:00:00'', Some ''2024-01-05 08:00:00'']
   \<and> map eve_DateTime (Events (disk (snd seed_run))) = [Some ''2024-01-05 08:00:00'']
   \<and> events_cutoff (seed_clock DeleteEvents) seed_params
       = Some (date_text ((seed_clock DeleteEvents - DAYS_TO_KEEP_EVENTS seed_params * 86400) div 86400))"
proof -
  have ok: "fst seed_run = None" by code_simp
  have n: "0 \<le> DAYS_TO_KEEP_EVENTS seed_params" by code_simp
  have v: "valid_instant (seed_clock DeleteEvents - DAYS_TO_KEEP_EVENTS seed_params * 86400)"
    by code_simp
  have c: "events_cutoff (seed_clock DeleteEvents) seed_params = Some ''2024-01-01''" by code_simp
  have e1: "map eve_DateTime (Events seed_db) = [Some ''2023-12-31 23:00:00'', Some ''2024-01-05 08:00:00'']"
    by code_simp
  have e2: "map eve_DateTime (Events (disk (snd seed_run))) = [Some ''2024-01-05 08:00:00'']"
    by code_simp
  have "events_cutoff (seed_clock DeleteEvents) seed_params
       = Some (date_text ((seed_clock DeleteEvents - DAYS_TO_KEEP_EVENTS seed_params * 86400) div 86400))"
    using events_deleted_up_to_cutoff_date[OF seed_run_ok] n v by blast
  with ok n v c e1 e2 show ?thesis by (intro conjI)
qed

text \<open>
  The claim as stated fails on \<open>stale_event_db\<close>: the run is at 2024-01-11 12:00:00 with
  N = 10, the event of 2024-01-01 10:00:00 is two hours older than now minus 10 days and is
  retained, because its text is above the text 2024-01-01.
\<close>

theorem events_older_than_days_retained_counterexample:
  "seed_clock DeleteEvents = 1704974400
   \<and> DAYS_TO_KEEP_EVENTS seed_params = 10
   \<and> sqlite_datetime (1704974400 - 10 * 86400) = ''2024-01-01 12:00:00''
   \<and> sqlite_datetime 1704103200 = ''2024-01-01 10:00:00''
   \<and> (1704103200 :: int) < 1704974400 - 10 * 86400
   \<and> fst stale_event_run = None
   \<and> map eve_DateTime (Events stale_event_db)
       = [Some ''2024-01-01 10:00:00'', Some ''2024-01-01'', Some ''2023-12-31 23:59:59'']
   \<and> map eve_DateTime (Events (disk (snd stale_event_run))) = [Some ''2024-01-01 10:00:00'']"
  by code_simp

section \<open>Devices\<close>

text \<open>
  With \<^verbatim>\<open>HRS_TO_KEEP_NEWDEV\<close> = 0 the statement on \<^verbatim>\<open>Devices\<close> is not executed: the table
  is as it was, also for a device flagged new with an old first connection, as in the
  seeded run.
\<close>

lemma new_devices_kept_when_disabled:
  assumes "cleanup_database fails clock st p db = (None, w)" and "HRS_TO_KEEP_NEWDEV p = 0"
  shows "Devices (disk w) = Devices db"
  using success_tables(6)[OF assms(1)] assms(2) by simp

lemma old_new_device_kept_in_seeded_run:
  "HRS_TO_KEEP_NEWDEV seed_params = 0
   \<and> Devices seed_db
       = [\<lparr>dev_NewDevice = Some 1, dev_FirstConnection = Some ''2020-02-29 07:30:00''\<rparr>,
          \<lparr>dev_NewDevice = Some 0, dev_FirstConnection = Some ''2019-01-01 00:00:00''\<rparr>]
   \<and> Devices (disk (snd seed_run)) = Devices seed_db"
  by code_simp

text \<open>
  C6. With \<^verbatim>\<open>HRS_TO_KEEP_NEWDEV\<close> = 2 and a run at 2024-01-11 12:00:00, the device flagged
  new that first connected at 2024-01-11 01:00:00, nine hours before now minus 2 hours, is
  retained: the statement compares with \<^verbatim>\<open>date('now', '-2 hour')\<close>, the text 2024-01-11.
\<close>

theorem new_device_older_than_hours_retained:
  "seed_clock DeleteNewDevices = 1704974400
   \<and> HRS_TO_KEEP_NEWDEV two_hours_params = 2
   \<and> sqlite_datetime (1704974400 - 2 * 3600) = ''2024-01-11 10:00:00''
   \<and> sqlite_datetime 1704934800 = ''2024-01-11 01:00:00''
   \<and> (1704934800 :: int) < 1704974400 - 2 * 3600
   \<and> new_devices_cutoff (seed_clock DeleteNewDevices) two_hours_params = Some ''2024-01-11''
   \<and> fst recent_device_run = None
   \<and> Execute DeleteNewDevices \<in> set (trace (snd recent_device_run))
   \<and> Devices (disk (snd recent_device_run))
       = [\<lparr>dev_NewDevice = Some 1, dev_FirstConnection = Some ''2024-01-11 01:00:00''\<rparr>]"
  by code_simp

section \<open>The cutoffs are calendar dates\<close>

lemma length_date_text: "length (date_text day) \<le> 11"
  by (simp add: date_text_def four_digits_def two_digits_def split: prod.splits)

lemma sqlite_date_now_minus_Some:
  "sqlite_date_now_minus now n unit = Some s \<Longrightarrow>
   s = date_text ((now - n * unit) div 86400) \<and> length s \<le> 11"
  by (auto simp: sqlite_date_now_minus_def length_date_text split: if_splits)

lemma sqlite_date_now_minus_same_day:
  assumes "0 \<le> n1" "0 \<le> n2" "valid_instant (now - n1 * unit)" "valid_instant (now - n2 * unit)"
    and "(now - n1 * unit) div 86400 = (now - n2 * unit) div 86400"
  shows "sqlite_date_now_minus now n1 unit = sqlite_date_now_minus now n2 unit"
  using assms by (simp add: sqlite_date_now_minus_def)

text \<open>
  C10. Each of the three cutoffs (Events, new devices, Pholus\_Scan) is, when it is not
  \<^verbatim>\<open>NULL\<close>, the text of the calendar date of the clock reading minus the offset: a function
  of the day number alone, at most 11 characters (\<^verbatim>\<open>YYYY-MM-DD\<close>, with a sign for years
  before 0), without a time of day. For the new devices, two positive values of
  \<^verbatim>\<open>HRS_TO_KEEP_NEWDEV\<close> whose offsets from the clock reading fall on the same calendar
  date give the same \<^verbatim>\<open>WHERE\<close> predicate, and the statement leaves the same table.
\<close>

theorem cutoffs_are_calendar_dates:
  "(\<forall>s. events_cutoff now p = Some s \<longrightarrow>
        s = date_text ((now - DAYS_TO_KEEP_EVENTS p * 86400) div 86400) \<and> length s \<le> 11)
   \<and> (\<forall>s. new_devices_cutoff now p = Some s \<longrightarrow>
        s = date_text ((now - HRS_TO_KEEP_NEWDEV p * 3600) div 86400) \<and> length s \<le> 11)
   \<and> (\<forall>s d. PHOLUS_DAYS_DATA p = Some d \<and> pholus_cutoff now p = Some s \<longrightarrow>
        s = date_text ((now - d * 86400) div 86400) \<and> length s \<le> 11)
   \<and> (0 < H1 \<and> 0 < H2 \<and> valid_instant (now - H1 * 3600) \<and> valid_instant (now - H2 * 3600)
        \<and> (now - H1 * 3600) div 86400 = (now - H2 * 3600) div 86400 \<longrightarrow>
        new_devices_where now (p\<lparr>HRS_TO_KEEP_NEWDEV := H1\<rparr>)
          = new_devices_where now (p\<lparr>HRS_TO_KEEP_NEWDEV := H2\<rparr>)
        \<and> delete_new_devices now (p\<lparr>HRS_TO_KEEP_NEWDEV := H1\<rparr>) db
          = delete_new_devices now (p\<lparr>HRS_TO_KEEP_NEWDEV := H2\<rparr>) db)"
proof -
  have a: "\<forall>s. events_cutoff now p = Some s \<longrightarrow>
        s = date_text ((now - DAYS_TO_KEEP_EVENTS p * 86400) div 86400) \<and> length s \<le> 11"
    unfolding events_cutoff_def by (blast dest: sqlite_date_now_minus_Some)
  have b: "\<forall>s. new_devices_cutoff now p = Some s \<longrightarrow>
        s = date_text ((now - HRS_TO_KEEP_NEWDEV p * 3600) div 86400) \<and> length s \<le> 11"
    unfolding new_devices_cutoff_def by (blast dest: sqlite_date_now_minus_Some)
  have c: "\<forall>s d. PHOLUS_DAYS_DATA p = Some d \<and> pholus_cutoff now p = Some s \<longrightarrow>
        s = date_text ((now - d * 86400) div 86400) \<and> length s \<le> 11"
    unfolding pholus_cutoff_def by (auto dest: sqlite_date_now_minus_Some)
  have d: "0 < H1 \<and> 0 < H2 \<and> valid_instant (now - H1 * 3600) \<and> valid_instant (now - H2 * 3600)
        \<and> (now - H1 * 3600) div 86400 = (now - H2 * 3600) div 86400 \<longrightarrow>
        new_devices_where now (p\<lparr>HRS_TO_KEEP_NEWDEV := H1\<rparr>)
          = new_devices_where now (p\<lparr>HRS_TO_KEEP_NEWDEV := H2\<rparr>)
        \<and> delete_new_devices now (p\<lparr>HRS_TO_KEEP_NEWDEV := H1\<rparr>) db
          = delete_new_devices now (p\<lparr>HRS_TO_KEEP_NEWDEV := H2\<rparr>) db"
  proof
    assume h: "0 < H1 \<and> 0 < H2 \<and> valid_instant (now - H1 * 3600) \<and> valid_instant (now - H2 * 3600)
        \<and> (now - H1 * 3600) div 86400 = (now - H2 * 3600) div 86400"
    then have "sqlite_date_now_minus now H1 3600 = sqlite_date_now_minus now H2 3600"
      by (intro sqlite_date_now_minus_same_day) simp_all
    then have w: "new_devices_where now (p\<lparr>HRS_TO_KEEP_NEWDEV := H1\<rparr>)
          = new_devices_where now (p\<lparr>HRS_TO_KEEP_NEWDEV := H2\<rparr>)"
      by (intro ext) (simp add: new_devices_where_def new_devices_cutoff_def)
    then show "new_devices_where now (p\<lparr>HRS_TO_KEEP_NEWDEV := H1\<rparr>)
          = new_devices_where now (p\<lparr>HRS_TO_KEEP_NEWDEV := H2\<rparr>)
        \<and> delete_new_devices now (p\<lparr>HRS_TO_KEEP_NEWDEV := H1\<rparr>) db
          = delete_new_devices now (p\<lparr>HRS_TO_KEEP_NEWDEV := H2\<rparr>) db"
      by (simp add: delete_new_devices_def)
  qed
  from a b c d show ?thesis by (intro conjI)
qed

text \<open>
  At 2024-01-11 12:00:00, one hour and twelve hours back are both on 2024-01-11: the two
  settings give the cutoff text 2024-01-11 and delete the same rows.
\<close>

theorem cutoffs_are_calendar_dates_witness:
  "(0::int) < 1 \<and> (0::int) < 12
   \<and> valid_instant (1704974400 - 1 * 3600) \<and> valid_instant (1704974400 - 12 * 3600)
   \<and> ((1704974400::int) - 1 * 3600) div 86400 = (1704974400 - 12 * 3600) div 86400
   \<and> events_cutoff 1704974400 seed_params = Some ''2024-01-01''
   \<and> new_devices_cutoff 1704974400 (seed_params\<lparr>HRS_TO_KEEP_NEWDEV := 1\<rparr>) = Some ''2024-01-11''
   \<and> new_devices_cutoff 1704974400 (seed_params\<lparr>HRS_TO_KEEP_NEWDEV := 12\<rparr>) = Some ''2024-01-11''
   \<and> pholus_cutoff 1704974400 seed_params = Some ''2023-12-12''
   \<and> ''2024-01-01'' = date_text ((1704974400 - DAYS_TO_KEEP_EVENTS seed_params * 86400) div 86400)
   \<and> new_devices_where 1704974400 (seed_params\<lparr>HRS_TO_KEEP_NEWDEV := 1\<rparr>)
       = new_devices_where 1704974400 (seed_params\<lparr>HRS_TO_KEEP_NEWDEV := 12\<rparr>)
   \<and> delete_new_devices 1704974400 (seed_params\<lparr>HRS_TO_KEEP_NEWDEV := 1\<rparr>) recent_device_db
       = delete_new_devices 1704974400 (seed_params\<lparr>HRS_TO_KEEP_NEWDEV := 12\<rparr>) recent_device_db"
proof -
  have h: "(0::int) < 1 \<and> (0::int) < 12
     \<and> valid_instant (1704974400 - 1 * 3600) \<and> valid_instant (1704974400 - 12 * 3600)
     \<and> ((1704974400::int) - 1 * 3600) div 86400 = (1704974400 - 12 * 3600) div 86400"
    by (simp add: valid_instant_def)
  have e: "events_cutoff 1704974400 seed_params = Some ''2024-01-01''" by code_simp
  have n1: "new_devices_cutoff 1704974400 (seed_params\<lparr>HRS_TO_KEEP_NEWDEV := 1\<rparr>) = Some ''2024-01-11''"
    by code_simp
  have n2: "new_devices_cutoff 1704974400 (seed_params\<lparr>HRS_TO_KEEP_NEWDEV := 12\<rparr>) = Some ''2024-01-11''"
    by code_simp
  have ph: "pholus_cutoff 1704974400 seed_params = Some ''2023-12-12''" by code_simp
  note t = cutoffs_are_calendar_dates[of 1704974400 seed_params 1 12 recent_device_db]
  from t e have d: "''2024-01-01'' = date_text ((1704974400 - DAYS_TO_KEEP_EVENTS seed_params * 86400) div 86400)"
    by blast
  from t h have w: "new_devices_where 1704974400 (seed_params\<lparr>HRS_TO_KEEP_NEWDEV := 1\<rparr>)
       = new_devices_where 1704974400 (seed_params\<lparr>HRS_TO_KEEP_NEWDEV := 12\<rparr>)
     \<and> delete_new_devices 1704974400 (seed_params\<lparr>HRS_TO_KEEP_NEWDEV := 1\<rparr>) recent_device_db
       = delete_new_devices 1704974400 (seed_params\<lparr>HRS_TO_KEEP_NEWDEV := 12\<rparr>) recent_device_db"
    by blast
  from h e n1 n2 ph d w show ?thesis by (intro conjI) blast+
qed

section \<open>Frame: rows are only deleted\<close>

lemma trim_query_subseq: "subseq (trim_query idx part key K rows) rows"
  unfolding trim_query_def by (rule sql_delete_subseq)

lemma dedup_query_subseq: "subseq (dedup_query rowid same rows) rows"
  unfolding dedup_query_def by (rule sql_delete_subseq)

lemmas statement_defs =
  delete_online_history_def delete_events_def trim_plugins_history_def
  trim_notifications_def trim_appevents_def delete_new_devices_def delete_pholus_scan_def
  dedup_pholus_scan_def dedup_plugins_objects_def

lemma exec_statement_subseq:
  "subseq (Online_History (exec_statement clock st p s db)) (Online_History db)"
  "subseq (Events (exec_statement clock st p s db)) (Events db)"
  "subseq (Plugins_History (exec_statement clock st p s db)) (Plugins_History db)"
  "subseq (Notifications (exec_statement clock st p s db)) (Notifications db)"
  "subseq (AppEvents (exec_statement clock st p s db)) (AppEvents db)"
  "subseq (Devices (exec_statement clock st p s db)) (Devices db)"
  "subseq (Pholus_Scan (exec_statement clock st p s db)) (Pholus_Scan db)"
  "subseq (Plugins_Objects (exec_statement clock st p s db)) (Plugins_Objects db)"
  by (cases s; simp add: statement_defs sql_delete_subseq trim_query_subseq dedup_query_subseq)+

lemma exec_statement_other_tables:
  "other_tables (exec_statement clock st p s db) = other_tables db"
  by (cases s) (simp_all add: statement_defs)

text \<open>
  A relation between databases that is reflexive, transitive and holds across every
  statement holds between the database a run starts from and both the file and the
  transaction's view at every point of the run.
\<close>

lemma effect_relates:
  assumes trans: "\<And>a b c. R a b \<Longrightarrow> R b c \<Longrightarrow> R a c"
    and step: "\<And>s d. R d (exec_statement clock st p s d)"
    and d: "R db (disk w)" and c: "R db (current w)"
  shows "R db (disk (effect clock st p a w)) \<and> R db (current (effect clock st p a w))"
proof (cases a)
  case Connect
  with d c show ?thesis by (simp add: current_def split: option.splits)
next
  case (Execute s)
  have e: "R db (exec_statement clock st p s (current w))"
    by (rule trans[OF c step])
  from Execute d c e show ?thesis
    by (cases s) (simp_all add: current_def)
next
  case Commit
  with d c show ?thesis by (simp add: current_def)
next
  case Close
  with d c show ?thesis by (simp add: current_def)
qed

lemma disk_perform: "disk (perform clock st p a w) = disk (effect clock st p a w)"
  by (simp add: perform_def)

lemma current_perform: "current (perform clock st p a w) = current (effect clock st p a w)"
  by (simp add: perform_def current_def split: option.splits)

lemma foldl_perform_relates:
  assumes trans: "\<And>a b c. R a b \<Longrightarrow> R b c \<Longrightarrow> R a c"
    and step: "\<And>s d. R d (exec_statement clock st p s d)"
  shows "R db (disk w) \<and> R db (current w) \<Longrightarrow>
         R db (disk (foldl (\<lambda>w a. perform clock st p a w) w as))
         \<and> R db (current (foldl (\<lambda>w a. perform clock st p a w) w as))"
proof (induction as arbitrary: w)
  case Nil
  then show ?case by simp
next
  case (Cons a as)
  from Cons.prems have d: "R db (disk w)" and c: "R db (current w)" by blast+
  have "R db (disk (effect clock st p a w)) \<and> R db (current (effect clock st p a w))"
    using trans step d c by (rule effect_relates)
  then have "R db (disk (perform clock st p a w)) \<and> R db (current (perform clock st p a w))"
    by (simp only: disk_perform current_perform)
  then show ?case
    unfolding foldl_Cons by (rule Cons.IH)
qed

lemma cleanup_relates:
  assumes refl: "\<And>d. R d d"
    and trans: "\<And>a b c. R a b \<Longrightarrow> R b c \<Longrightarrow> R a c"
    and step: "\<And>s d. R d (exec_statement clock st p s d)"
  shows "R db (disk (snd (cleanup_database fails clock st p db)))"
proof -
  have init: "R db (disk (initial db)) \<and> R db (current (initial db))"
    by (simp add: initial_def current_def refl)
  have "R db (disk (foldl (\<lambda>w a. perform clock st p a w) (initial db)
                 (takeWhile (\<lambda>a. \<not> fails a) (script p))))
        \<and> R db (current (foldl (\<lambda>w a. perform clock st p a w) (initial db)
                 (takeWhile (\<lambda>a. \<not> fails a) (script p))))"
    using trans step init by (rule foldl_perform_relates)
  then show ?thesis
    by (simp only: cleanup_database_def run_eq snd_conv)
qed

lemma cleanup_subseq:
  assumes "\<And>s d. subseq (f (exec_statement clock st p s d)) (f d)"
  shows "subseq (f (disk (snd (cleanup_database fails clock st p db)))) (f db)"
  by (rule cleanup_relates[of "\<lambda>a b. subseq (f b) (f a)"])
     (auto intro: assms elim: subseq_order.trans)

text \<open>
  C8. Whatever the input database, the parameters and the call that fails (if any), the
  file a run leaves holds, in each of the eight tables, a subsequence of the rows that were
  there: no row is inserted and no row is changed; every other table is as it was.
\<close>

theorem cleanup_only_deletes_rows:
  "subseq (Online_History (disk (snd (cleanup_database fails clock st p db)))) (Online_History db)
   \<and> subseq (Events (disk (snd (cleanup_database fails clock st p db)))) (Events db)
   \<and> subseq (Plugins_History (disk (snd (cleanup_database fails clock st p db)))) (Plugins_History db)
   \<and> subseq (Notifications (disk (snd (cleanup_database fails clock st p db)))) (Notifications db)
   \<and> subseq (AppEvents (disk (snd (cleanup_database fails clock st p db)))) (AppEvents db)
   \<and> subseq (Devices (disk (snd (cleanup_database fails clock st p db)))) (Devices db)
   \<and> subseq (Pholus_Scan (disk (snd (cleanup_database fails clock st p db)))) (Pholus_Scan db)
   \<and> subseq (Plugins_Objects (disk (snd (cleanup_database fails clock st p db)))) (Plugins_Objects db)
   \<and> other_tables (disk (snd (cleanup_database fails clock st p db))) = other_tables db"
proof (intro conjI)
  show "other_tables (disk (snd (cleanup_database fails clock st p db))) = other_tables db"
    by (rule cleanup_relates[of "\<lambda>a b. other_tables b = other_tables a"])
       (simp_all add: exec_statement_other_tables)
qed (rule cleanup_subseq, rule exec_statement_subseq)+

text \<open>
  The seeded run, and a run on the seeded database in which the commit fails: the eight
  tables shrink or stay, the other tables stay.
\<close>

theorem cleanup_only_deletes_rows_witness:
  "subseq (Plugins_History (disk (snd seed_run))) (Plugins_History seed_db)
   \<and> map ph_Index (Plugins_History seed_db) = [1, 2, 3, 4, 5, 6, 7]
   \<and> map ph_Index (Plugins_History (disk (snd seed_run))) = [3, 4, 5, 6, 7]
   \<and> other_tables (disk (snd seed_run)) = [(''Settings'', [''TIMEZONE=UTC'']), (''Parameters'', [])]
   \<and> subseq (Plugins_History (disk (snd (cleanup_database (failure_at Commit) seed_clock
          seed_settings seed_params seed_db)))) (Plugins_History seed_db)"
proof -
  have v1: "map ph_Index (Plugins_History seed_db) = [1, 2, 3, 4, 5, 6, 7]" by code_simp
  have v2: "map ph_Index (Plugins_History (disk (snd seed_run))) = [3, 4, 5, 6, 7]" by code_simp
  have v3: "other_tables seed_db = [(''Settings'', [''TIMEZONE=UTC'']), (''Parameters'', [])]"
    by code_simp
  note t = cleanup_only_deletes_rows[of no_failure seed_clock seed_settings seed_params seed_db,
      folded seed_run_def]
  note u = cleanup_only_deletes_rows[of "failure_at Commit" seed_clock seed_settings seed_params seed_db]
  from t u v1 v2 v3 show ?thesis by simp
qed

section \<open>Lifecycle of the connection\<close>

lemma trace_cleanup:
  "trace (snd (cleanup_database fails clock st p db)) = takeWhile (\<lambda>a. \<not> fails a) (script p)"
  by (simp add: cleanup_database_def run_eq trace_foldl_perform initial_def)

lemma Vacuum_not_delete: "Vacuum \<notin> set (delete_statements p)"
  by (simp add: delete_statements_def)

lemma success_lifecycle:
  assumes "cleanup_database fails clock st p db = (None, w)"
  shows "trace w = script p" "\<not> connected w" "pending w = None"
proof -
  show "trace w = script p"
    unfolding success_world[OF assms] by (simp add: trace_foldl_perform initial_def)
  show "\<not> connected w" "pending w = None"
    unfolding success_world[OF assms] script_def delete_statements_def
    by (simp_all add: perform_def current_def initial_def)
qed

lemma failure_lifecycle:
  assumes "cleanup_database fails clock st p db = (Some a, w)"
  shows "fails a \<and> a \<notin> set (trace w) \<and> Close \<notin> set (trace w)
       \<and> (a \<noteq> Connect \<longrightarrow> connected w)
       \<and> (a \<noteq> Execute Vacuum \<and> a \<noteq> Close \<longrightarrow> Commit \<notin> set (trace w) \<and> disk w = db)
       \<and> (a = Execute Vacuum \<or> a = Close \<longrightarrow> count_list (trace w) Commit = 1)"
  using assms unfolding cleanup_database_def script_def delete_statements_def
  by (auto simp: perform_def initial_def current_def split: if_splits)

text \<open>
  C9, as amended. The first call of a run opens the connection. In a run in which no call
  fails, the calls are: connect, the delete statements, one commit, \<^verbatim>\<open>VACUUM\<close>, close; so
  the deletions are committed exactly once, after every delete statement and before the
  compaction, the connection is closed at the end and no transaction is left open. When a
  call fails, the run ends at that call: the calls made are those before it, close is not
  among them, the connection stays open (unless it was the connect that failed), and when
  the failing call is a delete statement or the commit, nothing is committed and the file
  is as it was.
\<close>

theorem connection_lifecycle:
  "hd (script p) = Connect
   \<and> trace (snd (cleanup_database fails clock st p db)) = takeWhile (\<lambda>a. \<not> fails a) (script p)
   \<and> (fst (cleanup_database fails clock st p db) = None \<longrightarrow>
        trace (snd (cleanup_database fails clock st p db))
          = [Connect] @ map Execute (delete_statements p) @ [Commit, Execute Vacuum, Close]
        \<and> Vacuum \<notin> set (delete_statements p)
        \<and> count_list (trace (snd (cleanup_database fails clock st p db))) Commit = 1
        \<and> last (trace (snd (cleanup_database fails clock st p db))) = Close
        \<and> \<not> connected (snd (cleanup_database fails clock st p db))
        \<and> pending (snd (cleanup_database fails clock st p db)) = None)
   \<and> (\<forall>a. fst (cleanup_database fails clock st p db) = Some a \<longrightarrow>
        fails a
        \<and> a \<notin> set (trace (snd (cleanup_database fails clock st p db)))
        \<and> Close \<notin> set (trace (snd (cleanup_database fails clock st p db)))
        \<and> (a \<noteq> Connect \<longrightarrow> connected (snd (cleanup_database fails clock st p db)))
        \<and> (a \<noteq> Execute Vacuum \<and> a \<noteq> Close \<longrightarrow>
              Commit \<notin> set (trace (snd (cleanup_database fails clock st p db)))
              \<and> disk (snd (cleanup_database fails clock st p db)) = db)
        \<and> (a = Execute Vacuum \<or> a = Close \<longrightarrow>
              count_list (trace (snd (cleanup_database fails clock st p db))) Commit = 1))"
proof -
  obtain r w where rw: "cleanup_database fails clock st p db = (r, w)"
    by (cases "cleanup_database fails clock st p db")
  have a: "hd (script p) = Connect" by (simp add: script_def)
  have b: "trace w = takeWhile (\<lambda>a. \<not> fails a) (script p)"
    using trace_cleanup[of fails clock st p db] rw by simp
  have c: "r = None \<longrightarrow>
        trace w = [Connect] @ map Execute (delete_statements p) @ [Commit, Execute Vacuum, Close]
        \<and> Vacuum \<notin> set (delete_statements p)
        \<and> count_list (trace w) Commit = 1
        \<and> last (trace w) = Close \<and> \<not> connected w \<and> pending w = None"
  proof
    assume "r = None"
    with rw have ok: "cleanup_database fails clock st p db = (None, w)" by simp
    have t: "trace w = [Connect] @ map Execute (delete_statements p) @ [Commit, Execute Vacuum, Close]"
      using success_lifecycle(1)[OF ok] by (simp add: script_def)
    have n: "count_list (map Execute (delete_statements p)) Commit = 0"
      by (simp add: count_list_0_iff image_iff)
    have cnt: "count_list (trace w) Commit = 1"
      unfolding t using n by simp
    have l: "last (trace w) = Close" unfolding t by simp
    from t Vacuum_not_delete cnt l success_lifecycle(2,3)[OF ok]
    show "trace w = [Connect] @ map Execute (delete_statements p) @ [Commit, Execute Vacuum, Close]
        \<and> Vacuum \<notin> set (delete_statements p)
        \<and> count_list (trace w) Commit = 1
        \<and> last (trace w) = Close \<and> \<not> connected w \<and> pending w = None"
      by (intro conjI)
  qed
  have d: "\<forall>a. r = Some a \<longrightarrow>
        fails a \<and> a \<notin> set (trace w) \<and> Close \<notin> set (trace w)
        \<and> (a \<noteq> Connect \<longrightarrow> connected w)
        \<and> (a \<noteq> Execute Vacuum \<and> a \<noteq> Close \<longrightarrow> Commit \<notin> set (trace w) \<and> disk w = db)
        \<and> (a = Execute Vacuum \<or> a = Close \<longrightarrow> count_list (trace w) Commit = 1)"
  proof (intro allI impI)
    fix a assume "r = Some a"
    with rw have "cleanup_database fails clock st p db = (Some a, w)" by simp
    then show "fails a \<and> a \<notin> set (trace w) \<and> Close \<notin> set (trace w)
        \<and> (a \<noteq> Connect \<longrightarrow> connected w)
        \<and> (a \<noteq> Execute Vacuum \<and> a \<noteq> Close \<longrightarrow> Commit \<notin> set (trace w) \<and> disk w = db)
        \<and> (a = Execute Vacuum \<or> a = Close \<longrightarrow> count_list (trace w) Commit = 1)"
      by (rule failure_lifecycle)
  qed
  from a b c d show ?thesis unfolding rw fst_conv snd_conv by (intro conjI)
qed

text \<open>
  The seeded run completes: one commit, after the deletes and before \<^verbatim>\<open>VACUUM\<close>, and the
  connection is closed. The run in which the commit fails leaves the file as it was, with
  the connection open.
\<close>

theorem connection_lifecycle_witness:
  "fst seed_run = None
   \<and> trace (snd seed_run)
       = [Connect, Execute DeleteOnlineHistory, Execute DeleteEvents, Execute TrimPluginsHistory,
          Execute TrimNotifications, Execute TrimAppEvents, Execute DeletePholusScan,
          Execute DedupPholusScan, Execute DedupPluginsObjects, Commit, Execute Vacuum, Close]
   \<and> count_list (trace (snd seed_run)) Commit = 1
   \<and> last (trace (snd seed_run)) = Close
   \<and> \<not> connected (snd seed_run)
   \<and> fst failed_commit_run = Some Commit
   \<and> failure_at Commit Commit
   \<and> connected (snd failed_commit_run)
   \<and> disk (snd failed_commit_run) = seed_db"
proof -
  have ok: "fst seed_run = None" by code_simp
  have t: "trace (snd seed_run)
       = [Connect, Execute DeleteOnlineHistory, Execute DeleteEvents, Execute TrimPluginsHistory,
          Execute TrimNotifications, Execute TrimAppEvents, Execute DeletePholusScan,
          Execute DedupPholusScan, Execute DedupPluginsObjects, Commit, Execute Vacuum, Close]"
    by code_simp
  have f: "fst failed_commit_run = Some Commit" by code_simp
  note s = connection_lifecycle[of seed_params no_failure seed_clock seed_settings seed_db,
      folded seed_run_def]
  note c = connection_lifecycle[of seed_params "failure_at Commit" seed_clock seed_settings seed_db,
      folded failed_commit_run_def]
  from s ok have s': "count_list (trace (snd seed_run)) Commit = 1
      \<and> last (trace (snd seed_run)) = Close \<and> \<not> connected (snd seed_run)"
    by blast
  from c f have c': "failure_at Commit Commit \<and> connected (snd failed_commit_run)
      \<and> disk (snd failed_commit_run) = seed_db"
    by blast
  from ok t f s' c' show ?thesis by (intro conjI) blast+
qed

text \<open>
  The claim as stated fails on the seeded database: when the second delete statement
  raises, when the commit raises and when \<^verbatim>\<open>VACUUM\<close> raises, the run ends without the
  call of close and with the connection open.
\<close>

theorem connection_left_open_counterexample:
  "fst failed_delete_run = Some (Execute DeleteEvents)
   \<and> trace (snd failed_delete_run) = [Connect, Execute DeleteOnlineHistory]
   \<and> connected (snd failed_delete_run)
   \<and> fst failed_commit_run = Some Commit
   \<and> Close \<notin> set (trace (snd failed_commit_run))
   \<and> connected (snd failed_commit_run)
   \<and> fst failed_vacuum_run = Some (Execute Vacuum)
   \<and> Close \<notin> set (trace (snd failed_vacuum_run))
   \<and> connected (snd failed_vacuum_run)"
  by code_simp

section \<open>Running twice\<close>

lemma limit_query_idem:
  assumes "distinct (map idx rows)"
  shows "sql_delete (\<lambda>r. sql_not_in (idx r) (map idx (take 150 (order_by_desc key
            (sql_delete (\<lambda>r. sql_not_in (idx r) (map idx (take 150 (order_by_desc key rows)))) rows)))))
          (sql_delete (\<lambda>r. sql_not_in (idx r) (map idx (take 150 (order_by_desc key rows)))) rows)
         = sql_delete (\<lambda>r. sql_not_in (idx r) (map idx (take 150 (order_by_desc key rows)))) rows"
proof -
  have n: "(150::nat) = nat 150" by simp
  have t: "\<And>xs. distinct (map idx xs) \<Longrightarrow>
             sql_delete (\<lambda>r. sql_not_in (idx r) (map idx (take 150 (order_by_desc key xs)))) xs
             = trim_query idx (\<lambda>r. ()) key 150 xs"
    unfolding n by (rule limit_query_trim)
  have d: "distinct (map idx (trim_query idx (\<lambda>r. ()) key 150 rows))"
    unfolding trim_query_def sql_delete_def using assms by (rule distinct_map_filter)
  show ?thesis
    unfolding t[OF assms] t[OF d] by (rule trim_query_idem[OF assms])
qed

lemma sql_delete_dedup_query:
  "sql_delete c (dedup_query rowid same (sql_delete c rows)) = dedup_query rowid same (sql_delete c rows)"
proof (rule sql_delete_none)
  fix r assume "r \<in> set (dedup_query rowid same (sql_delete c rows))"
  then have "r \<in> set (sql_delete c rows)"
    using dedup_query_subset[of rowid same "sql_delete c rows"] by blast
  then show "c r \<noteq> Some True" by (simp add: sql_delete_def)
qed

lemma pholus_dedup_idem:
  "dedup_query ps_rowid pholus_same (dedup_query ps_rowid pholus_same rows)
   = dedup_query ps_rowid pholus_same rows"
  by (rule dedup_query_idem[of pholus_same _ pholus_key, OF pholus_same_key])

lemma objects_dedup_idem:
  "dedup_query po_rowid objects_same (dedup_query po_rowid objects_same rows)
   = dedup_query po_rowid objects_same rows"
  by (rule dedup_query_idem[of objects_same _ objects_key, OF objects_same_key])

text \<open>
  C7, as amended. When two runs in succession complete with the same parameters and
  settings, no write in between, and clock readings that give the same three cutoff dates
  (as they do when the clock reading is the same), the second run deletes nothing: the
  file after the first run is a fixed point. \<^verbatim>\<open>"Index"\<close> is the primary key of the four
  tables that are trimmed by rank.
\<close>

theorem second_run_deletes_nothing:
  assumes run1: "cleanup_database fails1 clock1 st p db = (None, w1)"
    and run2: "cleanup_database fails2 clock2 st p (disk w1) = (None, w2)"
    and cutoffs:
      "events_cutoff (clock2 DeleteEvents) p = events_cutoff (clock1 DeleteEvents) p"
      "new_devices_cutoff (clock2 DeleteNewDevices) p = new_devices_cutoff (clock1 DeleteNewDevices) p"
      "pholus_cutoff (clock2 DeletePholusScan) p = pholus_cutoff (clock1 DeletePholusScan) p"
    and keys:
      "distinct (map oh_Index (Online_History db))"
      "distinct (map ph_Index (Plugins_History db))"
      "distinct (map nt_Index (Notifications db))"
      "distinct (map ae_Index (AppEvents db))"
  shows "disk w2 = disk w1"
proof (rule database.equality)
  note t1 = success_tables[OF run1]
  note t2 = success_tables[OF run2]
  show "Online_History (disk w2) = Online_History (disk w1)"
    unfolding t2(1) unfolding t1(1) by (rule limit_query_idem[OF keys(1)])
  show "Events (disk w2) = Events (disk w1)"
    unfolding t2(2) unfolding t1(2) cutoffs(1) by (rule sql_delete_idem)
  show "Plugins_History (disk w2) = Plugins_History (disk w1)"
    unfolding t2(3) unfolding t1(3) by (rule trim_query_idem[OF keys(2)])
  show "Notifications (disk w2) = Notifications (disk w1)"
    unfolding t2(4) unfolding t1(4) by (rule trim_query_idem[OF keys(3)])
  show "AppEvents (disk w2) = AppEvents (disk w1)"
    unfolding t2(5) unfolding t1(5) by (rule trim_query_idem[OF keys(4)])
  have w: "new_devices_where (clock2 DeleteNewDevices) p = new_devices_where (clock1 DeleteNewDevices) p"
    by (intro ext) (simp add: new_devices_where_def cutoffs(2))
  show "Devices (disk w2) = Devices (disk w1)"
    unfolding t2(6) unfolding t1(6) w by (simp add: sql_delete_idem)
  show "Pholus_Scan (disk w2) = Pholus_Scan (disk w1)"
    unfolding t2(7) unfolding t1(7) cutoffs(3)
    by (simp add: sql_delete_dedup_query pholus_dedup_idem)
  show "Plugins_Objects (disk w2) = Plugins_Objects (disk w1)"
    unfolding t2(8) unfolding t1(8) by (rule objects_dedup_idem)
  show "other_tables (disk w2) = other_tables (disk w1)"
    unfolding t2(9) by (rule refl)
  show "database.more (disk w2) = database.more (disk w1)"
    by simp
qed

text \<open>
  The seeded run deletes rows; run again at the same clock reading, it leaves the file as
  the first run left it.
\<close>

theorem second_run_deletes_nothing_witness:
  "fst seed_run = None
   \<and> fst seed_second_run = None
   \<and> distinct (map oh_Index (Online_History seed_db))
   \<and> distinct (map ph_Index (Plugins_History seed_db))
   \<and> distinct (map nt_Index (Notifications seed_db))
   \<and> distinct (map ae_Index (AppEvents seed_db))
   \<and> length (Plugins_History seed_db) = 7
   \<and> length (Plugins_History (disk (snd seed_run))) = 5
   \<and> disk (snd seed_second_run) = disk (snd seed_run)"
proof -
  have ok1: "fst seed_run = None" by code_simp
  have ok2: "fst seed_second_run = None" by code_simp
  have d1: "distinct (map oh_Index (Online_History seed_db))" by code_simp
  have d2: "distinct (map ph_Index (Plugins_History seed_db))" by code_simp
  have d3: "distinct (map nt_Index (Notifications seed_db))" by code_simp
  have d4: "distinct (map ae_Index (AppEvents seed_db))" by code_simp
  have l1: "length (Plugins_History seed_db) = 7" by code_simp
  have l2: "length (Plugins_History (disk (snd seed_run))) = 5" by code_simp
  have run2: "cleanup_database no_failure seed_clock seed_settings seed_params (disk (snd seed_run))
              = (None, snd seed_second_run)"
  proof -
    from ok2 have "seed_second_run = (None, snd seed_second_run)" by (simp add: prod_eq_iff)
    then show ?thesis by (simp only: seed_second_run_def[symmetric])
  qed
  have "disk (snd seed_second_run) = disk (snd seed_run)"
    by (rule second_run_deletes_nothing[OF seed_run_ok run2 refl refl refl d1 d2 d3 d4])
  with ok1 ok2 d1 d2 d3 d4 l1 l2 show ?thesis by (intro conjI)
qed

text \<open>
  The claim as stated fails on \<open>stale_event_db\<close> with N = 10: the run at 2024-01-11 23:59:59
  retains the event of 2024-01-01 10:00:00 (cutoff 2024-01-01), and the run two seconds
  later, with the same parameters and nothing written in between, deletes it (cutoff
  2024-01-02).
\<close>

theorem second_run_deletes_counterexample:
  "sqlite_datetime 1705017599 = ''2024-01-11 23:59:59''
   \<and> sqlite_datetime 1705017601 = ''2024-01-12 00:00:01''
   \<and> fst before_midnight_run = None
   \<and> map eve_DateTime (Events (disk (snd before_midnight_run))) = [Some ''2024-01-01 10:00:00'']
   \<and> fst after_midnight_run = None
   \<and> Events (disk (snd after_midnight_run)) = []
   \<and> disk (snd after_midnight_run) \<noteq> disk (snd before_midnight_run)"
  by code_simp

end
